theory Spec2Isabelle
  imports Main
begin

section \<open>The script's view of the operating system\<close>

text \<open>
  \<^verbatim>\<open>deploy_to_github.py\<close> touches the outside world through four library calls:
  \<^verbatim>\<open>print\<close>, \<^verbatim>\<open>os.path.exists\<close>, \<^verbatim>\<open>shutil.rmtree\<close> and \<^verbatim>\<open>subprocess.run\<close>.
  The world is a type parameter \<open>'w\<close>; an \<open>os\<close> record says how the three calls that
  read or change the world answer in a given world. Nothing is assumed about these
  functions, so a command may succeed, exit with any status or fail to spawn, and
  may change which paths exist.

  A value of \<open>py_exception\<close> is an instance of Python's class \<^verbatim>\<open>Exception\<close>, the class
  that the handler of \<^verbatim>\<open>run_cmd\<close> names; \<open>str\<close> is its message.

  These first sections run the script where the console takes every text and nobody
  interrupts a command; they settle which commands are issued and in which order. What
  the script does when a \<^verbatim>\<open>print\<close> raises, when the user interrupts, or when the output
  of a command cannot be decoded is the subject of the section on hosts below, which
  also shows that on a quiet host both readings of the script agree.
\<close>

datatype py_exception = Exception (str: string)

record completed_process =
  returncode :: int
  stdout :: string
  stderr :: string

type_synonym spawn_result = "py_exception + completed_process"

record 'w os =
  path_exists :: "'w \<Rightarrow> string \<Rightarrow> bool"
  rmtree :: "'w \<Rightarrow> string \<Rightarrow> py_exception option \<times> 'w"
  spawn :: "'w \<Rightarrow> string \<Rightarrow> spawn_result \<times> 'w"

text \<open>
  Every library call leaves one event in the trace of the run: the text printed, the
  path tested with the answer, the tree removed with the error met (if any), the
  command line handed to the shell with what came back, or the command line alone when
  the user interrupted it.
\<close>

datatype event =
    Print string
  | Exists string bool
  | Rmtree string "py_exception option"
  | Run string spawn_result
  | Interrupted string

section \<open>Statements that may raise\<close>

text \<open>
  A statement maps the world to its outcome (\<open>Inl\<close> a raised exception, \<open>Inr\<close> the value
  returned), the world it leaves, and the events it produced.
\<close>

type_synonym ('e, 'w, 'a) stmt = "'w \<Rightarrow> ('e + 'a) \<times> 'w \<times> event list"

type_synonym ('w, 'a) prog = "(py_exception, 'w, 'a) stmt"

definition ret :: "'a \<Rightarrow> ('e, 'w, 'a) stmt" where
  "ret x = (\<lambda>w. (Inr x, w, []))"

definition bind :: "('e, 'w, 'a) stmt \<Rightarrow> ('a \<Rightarrow> ('e, 'w, 'b) stmt) \<Rightarrow> ('e, 'w, 'b) stmt" where
  "bind m f = (\<lambda>w. case m w of
       (Inl e, w1, t1) \<Rightarrow> (Inl e, w1, t1)
     | (Inr x, w1, t1) \<Rightarrow> (case f x w1 of (r, w2, t2) \<Rightarrow> (r, w2, t1 @ t2)))"

definition seq :: "('e, 'w, 'a) stmt \<Rightarrow> ('e, 'w, 'b) stmt \<Rightarrow> ('e, 'w, 'b) stmt" where
  "seq m k = bind m (\<lambda>_. k)"

definition discard :: "('e, 'w, 'a) stmt \<Rightarrow> ('e, 'w, unit) stmt" where
  "discard m = bind m (\<lambda>_. ret ())"

definition try_except ::
  "('w, 'a) prog \<Rightarrow> (py_exception \<Rightarrow> ('w, 'a) prog) \<Rightarrow> ('w, 'a) prog" where
  "try_except m h = (\<lambda>w. case m w of
       (Inl e, w1, t1) \<Rightarrow> (case h e w1 of (r, w2, t2) \<Rightarrow> (r, w2, t1 @ t2))
     | (Inr x, w1, t1) \<Rightarrow> (Inr x, w1, t1))"

subsection \<open>The library calls\<close>

text \<open>\<^verbatim>\<open>print\<close> on a console that takes the text; \<open>print_on\<close> below is the call on any
  console.\<close>

definition print :: "string \<Rightarrow> ('w, unit) prog" where
  "print msg = (\<lambda>w. (Inr (), w, [Print msg]))"

text \<open>\<^verbatim>\<open>os.path.exists\<close> returns False where the underlying call fails; it never raises.\<close>

definition os_path_exists :: "'w os \<Rightarrow> string \<Rightarrow> ('w, bool) prog" where
  "os_path_exists env p = (\<lambda>w. (Inr (path_exists env w p), w, [Exists p (path_exists env w p)]))"

text \<open>\<^verbatim>\<open>shutil.rmtree(path, ignore_errors)\<close>: an error of the removal is raised unless
  \<^verbatim>\<open>ignore_errors\<close> is set.\<close>

definition shutil_rmtree :: "'w os \<Rightarrow> string \<Rightarrow> bool \<Rightarrow> ('w, unit) prog" where
  "shutil_rmtree env p ignore_errors = (\<lambda>w. case rmtree env w p of
       (None, w1) \<Rightarrow> (Inr (), w1, [Rmtree p None])
     | (Some e, w1) \<Rightarrow> (if ignore_errors then Inr () else Inl e, w1, [Rmtree p (Some e)]))"

text \<open>\<^verbatim>\<open>subprocess.run(cmd, shell=True, capture_output=True, text=True)\<close>: the completed
  process, or the exception raised while spawning or running it.\<close>

definition subprocess_run :: "'w os \<Rightarrow> string \<Rightarrow> ('w, completed_process) prog" where
  "subprocess_run env cmd = (\<lambda>w. case spawn env w cmd of (r, w1) \<Rightarrow> (r, w1, [Run cmd r]))"

section \<open>The script\<close>

subsection \<open>\<^verbatim>\<open>run_cmd\<close>\<close>

definition run_cmd :: "'w os \<Rightarrow> string \<Rightarrow> ('w, bool) prog" where
  "run_cmd env cmd =
     try_except
       (bind (subprocess_run env cmd) (\<lambda>result.
          seq (if returncode result \<noteq> 0 then print (''Error: '' @ stderr result) else ret ())
              (ret (returncode result = 0))))
       (\<lambda>e. seq (print (''Exception: '' @ str e)) (ret False))"

subsection \<open>Literals of \<^verbatim>\<open>main\<close>\<close>

text \<open>Text is held as its UTF-8 bytes; these are the pictographs of the messages.\<close>

definition rocket :: string where "rocket = [CHR 0xF0, CHR 0x9F, CHR 0x9A, CHR 0x80]"
definition broom :: string where "broom = [CHR 0xF0, CHR 0x9F, CHR 0xA7, CHR 0xB9]"
definition file_folder :: string where "file_folder = [CHR 0xF0, CHR 0x9F, CHR 0x93, CHR 0x81]"
definition link_symbol :: string where "link_symbol = [CHR 0xF0, CHR 0x9F, CHR 0x94, CHR 0x97]"
definition memo :: string where "memo = [CHR 0xF0, CHR 0x9F, CHR 0x93, CHR 0x9D]"
definition floppy_disk :: string where "floppy_disk = [CHR 0xF0, CHR 0x9F, CHR 0x92, CHR 0xBE]"
definition up_arrow :: string where
  "up_arrow = [CHR 0xE2, CHR 0xAC, CHR 0x86, CHR 0xEF, CHR 0xB8, CHR 0x8F]"
definition check_mark :: string where "check_mark = [CHR 0xE2, CHR 0x9C, CHR 0x85]"
definition cross_mark :: string where "cross_mark = [CHR 0xE2, CHR 0x9D, CHR 0x8C]"
definition package :: string where "package = [CHR 0xF0, CHR 0x9F, CHR 0x93, CHR 0xA6]"

definition essential_files :: "string list" where
  "essential_files = [''package.json'', ''REPOSITORY_MANIFEST.md'', ''SAAS_REQUIREMENTS.md'']"

definition commit_msg :: string where
  "commit_msg =
     ''Initial commit: NexStudio - SaaS Platform'' @ [CHR 0x0A, CHR 0x0A] @
     ''NexStudio is an enterprise-grade visual app builder available exclusively at https://nexstudio.dev''
       @ [CHR 0x0A, CHR 0x0A] @
     ''This is a SaaS-only platform with domain-lock enforcement.'' @ [CHR 0x0A] @
     ''Repository: https://github.com/ehudso7/nexus-studio''"

definition dirs_to_add :: "string list" where
  "dirs_to_add =
     [''packages/domain-lock'', ''apps/web/middleware.ts'', ''.github'', ''docs'', ''nginx'']"

text \<open>The command lines that \<^verbatim>\<open>main\<close> builds.\<close>

definition init_cmd :: string where "init_cmd = ''git init -b main''"

definition config_cmds :: "string list" where
  "config_cmds = [''git config core.autocrlf false'', ''git config core.filemode false'',
     ''git config core.compression 0'']"

definition remote_cmd :: string where
  "remote_cmd = ''git remote add origin https://github.com/ehudso7/nexus-studio.git''"

definition add_cmd :: "string \<Rightarrow> string" where
  "add_cmd p = ''git add '' @ p"

definition commit_cmd :: "string \<Rightarrow> string" where
  "commit_cmd msg = ''git commit -m '' @ [CHR 0x22] @ msg @ [CHR 0x22]"

definition force_push_cmd :: string where "force_push_cmd = ''git push -f origin main''"

definition push_cmd :: string where "push_cmd = ''git push origin main''"

subsection \<open>The blocks of \<^verbatim>\<open>main\<close>\<close>

text \<open>Lines 22 to 24: the old \<^verbatim>\<open>.git\<close> directory.\<close>

definition clean_up :: "'w os \<Rightarrow> ('w, unit) prog" where
  "clean_up env =
     seq (print (broom @ '' Cleaning up old git repository...''))
         (bind (os_path_exists env ''.git'') (\<lambda>present.
            if present then shutil_rmtree env ''.git'' True else ret ()))"

text \<open>Lines 48 to 50: the loop over the essential files.\<close>

fun stage_essentials :: "'w os \<Rightarrow> string list \<Rightarrow> ('w, unit) prog" where
  "stage_essentials env [] = ret ()"
| "stage_essentials env (file # files) =
     seq (bind (os_path_exists env file) (\<lambda>present.
            if present then discard (run_cmd env (add_cmd file)) else ret ()))
         (stage_essentials env files)"

text \<open>Lines 41 to 69: stage the essential files, commit, force-push.\<close>

definition push_essentials :: "'w os \<Rightarrow> ('w, unit) prog" where
  "push_essentials env =
     seq (print (memo @ '' Adding essential files...''))
    (seq (stage_essentials env essential_files)
    (seq (print (floppy_disk @ '' Creating initial commit...''))
    (seq (run_cmd env (commit_cmd commit_msg))
    (seq (print (up_arrow @ ''  Pushing to GitHub...''))
         (bind (run_cmd env force_push_cmd) (\<lambda>pushed.
            if pushed then print (check_mark @ '' Successfully pushed essential files!'')
            else seq (print (cross_mark @
                        '' Failed to push. You may need to authenticate with GitHub.''))
                     (print ''Run: git push -f origin main'')))))))"

text \<open>Lines 84 to 88: the body of the loop over the additional paths.\<close>

definition add_dir :: "'w os \<Rightarrow> string \<Rightarrow> ('w, unit) prog" where
  "add_dir env dir_path =
     bind (os_path_exists env dir_path) (\<lambda>present.
       if present then
         seq (print (''Adding '' @ dir_path @ ''...''))
             (bind (run_cmd env (add_cmd dir_path)) (\<lambda>staged.
                if staged then
                  seq (run_cmd env (commit_cmd (''Add '' @ dir_path)))
                      (discard (run_cmd env push_cmd))
                else ret ()))
       else ret ())"

text \<open>Lines 83 to 88: the loop itself.\<close>

fun add_dirs :: "'w os \<Rightarrow> string list \<Rightarrow> ('w, unit) prog" where
  "add_dirs env [] = ret ()"
| "add_dirs env (dir_path # rest) = seq (add_dir env dir_path) (add_dirs env rest)"

text \<open>Lines 72 to 88.\<close>

definition push_additional :: "'w os \<Rightarrow> ('w, unit) prog" where
  "push_additional env =
     seq (print ([CHR 0x0A] @ package @ '' Adding additional files in batches...''))
         (add_dirs env dirs_to_add)"

text \<open>Lines 90 to 93.\<close>

definition summary :: "('w, unit) prog" where
  "summary =
     seq (print ([CHR 0x0A] @ check_mark @ '' Deployment complete!''))
    (seq (print ''Repository: https://github.com/ehudso7/nexus-studio'')
    (seq (print ([CHR 0x0A] @ ''Note: Some files may have been skipped due to corruption.''))
         (print ''The essential SaaS platform files have been pushed.'')))"

text \<open>Lines 32 to 93: what runs once \<^verbatim>\<open>git init\<close> has succeeded.\<close>

definition after_init :: "'w os \<Rightarrow> ('w, unit) prog" where
  "after_init env =
     seq (run_cmd env ''git config core.autocrlf false'')
    (seq (run_cmd env ''git config core.filemode false'')
    (seq (run_cmd env ''git config core.compression 0'')
    (seq (print (link_symbol @ '' Adding GitHub remote...''))
    (seq (run_cmd env remote_cmd)
    (seq (push_essentials env)
    (seq (push_additional env)
         summary))))))"

subsection \<open>\<^verbatim>\<open>main\<close>\<close>

definition main :: "'w os \<Rightarrow> ('w, unit) prog" where
  "main env =
     seq (print (rocket @ '' Deploying NexStudio to GitHub...''))
    (seq (clean_up env)
    (seq (print (file_folder @ '' Initializing new git repository...''))
         (bind (run_cmd env init_cmd) (\<lambda>initialised.
            if \<not> initialised then ret () else after_init env))))"

section \<open>Observing a run\<close>

definition res :: "('e, 'w, 'a) stmt \<Rightarrow> 'w \<Rightarrow> 'e + 'a" where
  "res m w = fst (m w)"

definition wld :: "('e, 'w, 'a) stmt \<Rightarrow> 'w \<Rightarrow> 'w" where
  "wld m w = fst (snd (m w))"

definition trc :: "('e, 'w, 'a) stmt \<Rightarrow> 'w \<Rightarrow> event list" where
  "trc m w = snd (snd (m w))"

text \<open>The command lines handed to the shell, in the order issued.\<close>

fun commands :: "event list \<Rightarrow> string list" where
  "commands [] = []"
| "commands (Run c r # t) = c # commands t"
| "commands (_ # t) = commands t"

text \<open>A spawned command succeeded when it completed with exit status 0.\<close>

fun succeeded :: "spawn_result \<Rightarrow> bool" where
  "succeeded (Inl e) = False"
| "succeeded (Inr result) = (returncode result = 0)"

text \<open>The command lines with their success.\<close>

fun cmd_log :: "event list \<Rightarrow> (string \<times> bool) list" where
  "cmd_log [] = []"
| "cmd_log (Run c r # t) = (c, succeeded r) # cmd_log t"
| "cmd_log (_ # t) = cmd_log t"

text \<open>The paths tested, each with the answer.\<close>

fun checks :: "event list \<Rightarrow> (string \<times> bool) list" where
  "checks [] = []"
| "checks (Exists p b # t) = (p, b) # checks t"
| "checks (_ # t) = checks t"

text \<open>The trees whose removal was started, each with whether the removal met an error.\<close>

fun deletions :: "event list \<Rightarrow> (string \<times> bool) list" where
  "deletions [] = []"
| "deletions (Rmtree p err # t) = (p, err \<noteq> None) # deletions t"
| "deletions (_ # t) = deletions t"

text \<open>The texts printed.\<close>

fun printed :: "event list \<Rightarrow> string list" where
  "printed [] = []"
| "printed (Print s # t) = s # printed t"
| "printed (_ # t) = printed t"

text \<open>What \<^verbatim>\<open>run_cmd\<close> prints about a spawn.\<close>

fun diagnostics :: "spawn_result \<Rightarrow> event list" where
  "diagnostics (Inl e) = [Print (''Exception: '' @ str e)]"
| "diagnostics (Inr result) =
     (if returncode result \<noteq> 0 then [Print (''Error: '' @ stderr result)] else [])"

subsection \<open>A concrete world for running the script\<close>

text \<open>
  A world lists the paths that exist, the command lines that exit with status 1, the
  command lines that cannot be spawned, and whether removing a tree meets an error.
  Commands leave the world as it is.
\<close>

record fixture =
  present :: "string list"
  failing :: "string list"
  unspawnable :: "string list"
  undeletable :: bool

definition fixture_os :: "fixture os" where
  "fixture_os = \<lparr>
     path_exists = (\<lambda>w p. p \<in> set (present w)),
     rmtree = (\<lambda>w p.
       if undeletable w then (Some (Exception ''Permission denied''), w)
       else (None, w\<lparr>present := removeAll p (present w)\<rparr>)),
     spawn = (\<lambda>w c.
       (if c \<in> set (unspawnable w) then Inl (Exception ''Cannot allocate memory'')
        else if c \<in> set (failing w)
          then Inr \<lparr>returncode = 1, stdout = [], stderr = ''fatal''\<rparr>
        else Inr \<lparr>returncode = 0, stdout = [], stderr = []\<rparr>, w))\<rparr>"

text \<open>
  Three worlds. In \<open>demo_world\<close> an old \<^verbatim>\<open>.git\<close> cannot be removed, one essential file
  and three additional paths exist, and several commands fail, one of them before it is
  spawned. In \<open>init_fails_world\<close> \<^verbatim>\<open>git init\<close> exits with status 1. In \<open>bare_world\<close>
  nothing exists and every command succeeds.
\<close>

definition demo_world :: fixture where
  "demo_world = \<lparr>
     present = [''.git'', ''package.json'', ''packages/domain-lock'', ''apps/web/middleware.ts'',
       ''docs''],
     failing = [''git config core.autocrlf false'', remote_cmd,
       commit_cmd (''Add packages/domain-lock''), add_cmd ''docs''],
     unspawnable = [''git config core.filemode false''],
     undeletable = True\<rparr>"

definition init_fails_world :: fixture where
  "init_fails_world = \<lparr>
     present = [''.git'', ''package.json'', ''docs''],
     failing = [init_cmd],
     unspawnable = [],
     undeletable = False\<rparr>"

definition bare_world :: fixture where
  "bare_world = \<lparr>present = [], failing = [], unspawnable = [], undeletable = False\<rparr>"

section \<open>The script on a host that can fail it\<close>

text \<open>
  The definitions above run the script where the console takes every text and nobody
  interrupts: there \<open>print\<close> cannot raise, and every exception is an instance of
  \<^verbatim>\<open>Exception\<close>. This section runs the same lines on a host that can do more:
  \<^item> writing a text to the console can raise (\<^verbatim>\<open>UnicodeEncodeError\<close> when standard
    output cannot encode it, \<^verbatim>\<open>OSError\<close> when it is closed);
  \<^item> the user can interrupt a running command, which makes \<^verbatim>\<open>subprocess.run\<close> raise
    \<^verbatim>\<open>KeyboardInterrupt\<close>, an exception outside class \<^verbatim>\<open>Exception\<close>;
  \<^item> the child process hands back an exit status and raw output, and \<^verbatim>\<open>text=True\<close>
    makes \<^verbatim>\<open>subprocess.run\<close> decode that output, raising \<^verbatim>\<open>UnicodeDecodeError\<close> where
    it cannot;
  \<^item> flushing standard output when the interpreter shuts down can fail.
\<close>

datatype base_exception = Of_Exception py_exception | KeyboardInterrupt

text \<open>A command either could not be launched, or exited with a status, leaving raw bytes
  on its standard output and standard error.\<close>

datatype launched = Unlaunched py_exception | Exited int string string

record 'w host =
  exists_fs :: "'w \<Rightarrow> string \<Rightarrow> bool"
  rmtree_fs :: "'w \<Rightarrow> string \<Rightarrow> py_exception option \<times> 'w"
  child :: "'w \<Rightarrow> string \<Rightarrow> launched \<times> 'w"
  decode :: "string \<Rightarrow> string option"
  interrupted :: "'w \<Rightarrow> string \<Rightarrow> bool"
  console :: "string \<Rightarrow> py_exception option"
  flush_fails :: bool

type_synonym ('w, 'a) hprog = "(base_exception, 'w, 'a) stmt"

text \<open>What \<^verbatim>\<open>subprocess.run(..., capture_output=True, text=True)\<close> makes of a child
  that nobody interrupts.\<close>

fun text_mode :: "(string \<Rightarrow> string option) \<Rightarrow> launched \<Rightarrow> spawn_result" where
  "text_mode dec (Unlaunched e) = Inl e"
| "text_mode dec (Exited status out err) =
     (case dec out of
        None \<Rightarrow> Inl (Exception ''UnicodeDecodeError'')
      | Some out_text \<Rightarrow>
          (case dec err of
             None \<Rightarrow> Inl (Exception ''UnicodeDecodeError'')
           | Some err_text \<Rightarrow>
               Inr \<lparr>returncode = status, stdout = out_text, stderr = err_text\<rparr>))"

text \<open>The operating system that the first sections see on such a host.\<close>

definition os_of :: "'w host \<Rightarrow> 'w os" where
  "os_of h = \<lparr>
     path_exists = exists_fs h,
     rmtree = rmtree_fs h,
     spawn = (\<lambda>w c. case child h w c of (l, w1) \<Rightarrow> (text_mode (decode h) l, w1))\<rparr>"

text \<open>A statement of the first sections, read as a statement on a host.\<close>

definition lift :: "('w, 'a) prog \<Rightarrow> ('w, 'a) hprog" where
  "lift m = (\<lambda>w. case m w of
       (Inl e, w1, t1) \<Rightarrow> (Inl (Of_Exception e), w1, t1)
     | (Inr x, w1, t1) \<Rightarrow> (Inr x, w1, t1))"

text \<open>\<^verbatim>\<open>try: ... except Exception as e: ...\<close> catches the instances of \<^verbatim>\<open>Exception\<close> and
  lets everything else through.\<close>

definition try_except_Exception ::
  "('w, 'a) hprog \<Rightarrow> (py_exception \<Rightarrow> ('w, 'a) hprog) \<Rightarrow> ('w, 'a) hprog" where
  "try_except_Exception m handler = (\<lambda>w. case m w of
       (Inl (Of_Exception e), w1, t1) \<Rightarrow> (case handler e w1 of (r, w2, t2) \<Rightarrow> (r, w2, t1 @ t2))
     | (Inl KeyboardInterrupt, w1, t1) \<Rightarrow> (Inl KeyboardInterrupt, w1, t1)
     | (Inr x, w1, t1) \<Rightarrow> (Inr x, w1, t1))"

definition print_on :: "'w host \<Rightarrow> string \<Rightarrow> ('w, unit) hprog" where
  "print_on h msg = (\<lambda>w. case console h msg of
       None \<Rightarrow> (Inr (), w, [Print msg])
     | Some e \<Rightarrow> (Inl (Of_Exception e), w, []))"

definition os_path_exists_on :: "'w host \<Rightarrow> string \<Rightarrow> ('w, bool) hprog" where
  "os_path_exists_on h p = lift (os_path_exists (os_of h) p)"

definition shutil_rmtree_on :: "'w host \<Rightarrow> string \<Rightarrow> bool \<Rightarrow> ('w, unit) hprog" where
  "shutil_rmtree_on h p ignore_errors = lift (shutil_rmtree (os_of h) p ignore_errors)"

definition subprocess_run_on :: "'w host \<Rightarrow> string \<Rightarrow> ('w, completed_process) hprog" where
  "subprocess_run_on h cmd = (\<lambda>w.
     if interrupted h w cmd
     then (Inl KeyboardInterrupt, snd (child h w cmd), [Interrupted cmd])
     else lift (subprocess_run (os_of h) cmd) w)"

text \<open>Lines 7 to 16.\<close>

definition run_cmd_on :: "'w host \<Rightarrow> string \<Rightarrow> ('w, bool) hprog" where
  "run_cmd_on h cmd =
     try_except_Exception
       (bind (subprocess_run_on h cmd) (\<lambda>result.
          seq (if returncode result \<noteq> 0 then print_on h (''Error: '' @ stderr result)
               else ret ())
              (ret (returncode result = 0))))
       (\<lambda>e. seq (print_on h (''Exception: '' @ str e)) (ret False))"

text \<open>Lines 22 to 24: the old \<^verbatim>\<open>.git\<close> directory.\<close>

definition clean_up_on :: "'w host \<Rightarrow> ('w, unit) hprog" where
  "clean_up_on h =
     seq (print_on h (broom @ '' Cleaning up old git repository...''))
         (bind (os_path_exists_on h ''.git'') (\<lambda>present.
            if present then shutil_rmtree_on h ''.git'' True else ret ()))"

text \<open>Lines 48 to 50: the loop over the essential files.\<close>

fun stage_essentials_on :: "'w host \<Rightarrow> string list \<Rightarrow> ('w, unit) hprog" where
  "stage_essentials_on h [] = ret ()"
| "stage_essentials_on h (file # files) =
     seq (bind (os_path_exists_on h file) (\<lambda>present.
            if present then discard (run_cmd_on h (add_cmd file)) else ret ()))
         (stage_essentials_on h files)"

text \<open>Lines 41 to 69: stage the essential files, commit, force-push.\<close>

definition push_essentials_on :: "'w host \<Rightarrow> ('w, unit) hprog" where
  "push_essentials_on h =
     seq (print_on h (memo @ '' Adding essential files...''))
    (seq (stage_essentials_on h essential_files)
    (seq (print_on h (floppy_disk @ '' Creating initial commit...''))
    (seq (run_cmd_on h (commit_cmd commit_msg))
    (seq (print_on h (up_arrow @ ''  Pushing to GitHub...''))
         (bind (run_cmd_on h force_push_cmd) (\<lambda>pushed.
            if pushed then print_on h (check_mark @ '' Successfully pushed essential files!'')
            else seq (print_on h (cross_mark @
                        '' Failed to push. You may need to authenticate with GitHub.''))
                     (print_on h ''Run: git push -f origin main'')))))))"

text \<open>Lines 84 to 88: the body of the loop over the additional paths.\<close>

definition add_dir_on :: "'w host \<Rightarrow> string \<Rightarrow> ('w, unit) hprog" where
  "add_dir_on h dir_path =
     bind (os_path_exists_on h dir_path) (\<lambda>present.
       if present then
         seq (print_on h (''Adding '' @ dir_path @ ''...''))
             (bind (run_cmd_on h (add_cmd dir_path)) (\<lambda>staged.
                if staged then
                  seq (run_cmd_on h (commit_cmd (''Add '' @ dir_path)))
                      (discard (run_cmd_on h push_cmd))
                else ret ()))
       else ret ())"

text \<open>Lines 83 to 88: the loop itself.\<close>

fun add_dirs_on :: "'w host \<Rightarrow> string list \<Rightarrow> ('w, unit) hprog" where
  "add_dirs_on h [] = ret ()"
| "add_dirs_on h (dir_path # rest) = seq (add_dir_on h dir_path) (add_dirs_on h rest)"

text \<open>Lines 72 to 88.\<close>

definition push_additional_on :: "'w host \<Rightarrow> ('w, unit) hprog" where
  "push_additional_on h =
     seq (print_on h ([CHR 0x0A] @ package @ '' Adding additional files in batches...''))
         (add_dirs_on h dirs_to_add)"

text \<open>Lines 90 to 93.\<close>

definition summary_on :: "'w host \<Rightarrow> ('w, unit) hprog" where
  "summary_on h =
     seq (print_on h ([CHR 0x0A] @ check_mark @ '' Deployment complete!''))
    (seq (print_on h ''Repository: https://github.com/ehudso7/nexus-studio'')
    (seq (print_on h ([CHR 0x0A] @ ''Note: Some files may have been skipped due to corruption.''))
         (print_on h ''The essential SaaS platform files have been pushed.'')))"

text \<open>Lines 32 to 93: what runs once \<^verbatim>\<open>git init\<close> has succeeded.\<close>

definition after_init_on :: "'w host \<Rightarrow> ('w, unit) hprog" where
  "after_init_on h =
     seq (run_cmd_on h ''git config core.autocrlf false'')
    (seq (run_cmd_on h ''git config core.filemode false'')
    (seq (run_cmd_on h ''git config core.compression 0'')
    (seq (print_on h (link_symbol @ '' Adding GitHub remote...''))
    (seq (run_cmd_on h remote_cmd)
    (seq (push_essentials_on h)
    (seq (push_additional_on h)
         (summary_on h)))))))"

text \<open>Lines 18 to 93.\<close>

definition main_on :: "'w host \<Rightarrow> ('w, unit) hprog" where
  "main_on h =
     seq (print_on h (rocket @ '' Deploying NexStudio to GitHub...''))
    (seq (clean_up_on h)
    (seq (print_on h (file_folder @ '' Initializing new git repository...''))
         (bind (run_cmd_on h init_cmd) (\<lambda>initialised.
            if \<not> initialised then ret () else after_init_on h))))"

text \<open>
  Lines 95 and 96, and the interpreter around them. An interrupt that nothing catches ends
  the process by the signal; another uncaught exception ends it with status 1; when
  \<^verbatim>\<open>main()\<close> returns, the status is 0 unless flushing standard output fails, which
  gives 120. The script never calls \<^verbatim>\<open>sys.exit\<close>.
\<close>

datatype process_end = Exit int | Killed_by_SIGINT

definition exit_status :: "'w host \<Rightarrow> 'w \<Rightarrow> process_end" where
  "exit_status h w =
     (case res (main_on h) w of
        Inl KeyboardInterrupt \<Rightarrow> Killed_by_SIGINT
      | Inl (Of_Exception e) \<Rightarrow> Exit 1
      | Inr u \<Rightarrow> if flush_fails h then Exit 120 else Exit 0)"

text \<open>A quiet host: the console takes every text, nobody interrupts, the last flush works.\<close>

definition quiet :: "'w host \<Rightarrow> bool" where
  "quiet h \<longleftrightarrow> (\<forall>s. console h s = None) \<and> (\<forall>w c. \<not> interrupted h w c) \<and> \<not> flush_fails h"

subsection \<open>Concrete hosts\<close>

text \<open>
  \<open>fixture_host\<close> is a quiet host over the worlds above. The others differ from it in one
  point each: a console that encodes ASCII only, a console that is closed, a user who
  interrupts the forced push, a command that exits with status 0 and leaves a byte on its
  standard error that cannot be decoded, a standard output that cannot be flushed at
  shutdown.
\<close>

definition fixture_host :: "fixture host" where
  "fixture_host = \<lparr>
     exists_fs = (\<lambda>w p. p \<in> set (present w)),
     rmtree_fs = (\<lambda>w p.
       if undeletable w then (Some (Exception ''Permission denied''), w)
       else (None, w\<lparr>present := removeAll p (present w)\<rparr>)),
     child = (\<lambda>w c.
       (if c \<in> set (unspawnable w) then Unlaunched (Exception ''Cannot allocate memory'')
        else if c \<in> set (failing w) then Exited 1 [] ''fatal''
        else Exited 0 [] [], w)),
     decode = Some,
     interrupted = (\<lambda>w c. False),
     console = (\<lambda>s. None),
     flush_fails = False\<rparr>"

definition ascii_console_host :: "fixture host" where
  "ascii_console_host = fixture_host\<lparr>console := (\<lambda>s.
     if list_all (\<lambda>c. (of_char c :: nat) < 128) s then None
     else Some (Exception ''UnicodeEncodeError''))\<rparr>"

definition closed_console_host :: "fixture host" where
  "closed_console_host = fixture_host\<lparr>console := (\<lambda>s. Some (Exception ''Bad file descriptor''))\<rparr>"

definition interrupting_host :: "fixture host" where
  "interrupting_host = fixture_host\<lparr>interrupted := (\<lambda>w c. c = force_push_cmd)\<rparr>"

definition garbled_host :: "fixture host" where
  "garbled_host = fixture_host\<lparr>
     child := (\<lambda>w c. (Exited 0 [] [CHR 0xFF], w)),
     decode := (\<lambda>s. if CHR 0xFF \<in> set s then None else Some s)\<rparr>"

definition unflushable_host :: "fixture host" where
  "unflushable_host = fixture_host\<lparr>flush_fails := True\<rparr>"

section \<open>Running statements in sequence\<close>

lemma res_ret: "res (ret x) w = Inr x"
  and wld_ret: "wld (ret x) w = w"
  and trc_ret: "trc (ret x) w = []"
  by (simp_all add: res_def wld_def trc_def ret_def)

lemma res_print: "res (print s) w = Inr ()"
  and wld_print: "wld (print s) w = w"
  and trc_print: "trc (print s) w = [Print s]"
  by (simp_all add: res_def wld_def trc_def print_def)

lemma res_exists: "res (os_path_exists env p) w = Inr (path_exists env w p)"
  and wld_exists: "wld (os_path_exists env p) w = w"
  and trc_exists: "trc (os_path_exists env p) w = [Exists p (path_exists env w p)]"
  by (simp_all add: res_def wld_def trc_def os_path_exists_def)

lemma res_rmtree_ignore: "res (shutil_rmtree env p True) w = Inr ()"
  and wld_rmtree: "wld (shutil_rmtree env p ig) w = snd (rmtree env w p)"
  and trc_rmtree: "trc (shutil_rmtree env p ig) w = [Rmtree p (fst (rmtree env w p))]"
  by (simp_all add: res_def wld_def trc_def shutil_rmtree_def split: prod.split option.split)

lemma bind_Inr:
  assumes "res m w = Inr x"
  shows "res (bind m f) w = res (f x) (wld m w)"
    and "wld (bind m f) w = wld (f x) (wld m w)"
    and "trc (bind m f) w = trc m w @ trc (f x) (wld m w)"
  using assms by (auto simp: res_def wld_def trc_def bind_def split: prod.split sum.split)

lemma seq_Inr:
  assumes "res m w = Inr x"
  shows "res (seq m k) w = res k (wld m w)"
    and "wld (seq m k) w = wld k (wld m w)"
    and "trc (seq m k) w = trc m w @ trc k (wld m w)"
  using assms by (simp_all add: seq_def bind_Inr)

lemma discard_Inr:
  assumes "res m w = Inr x"
  shows "res (discard m) w = Inr ()"
    and "wld (discard m) w = wld m w"
    and "trc (discard m) w = trc m w"
  using assms by (simp_all add: discard_def bind_Inr res_ret wld_ret trc_ret)

lemma res_run_cmd: "res (run_cmd env c) w = Inr (succeeded (fst (spawn env w c)))"
  and wld_run_cmd: "wld (run_cmd env c) w = snd (spawn env w c)"
  and trc_run_cmd: "trc (run_cmd env c) w =
      Run c (fst (spawn env w c)) # diagnostics (fst (spawn env w c))"
proof -
  obtain r w1 where sp: "spawn env w c = (r, w1)" by (cases "spawn env w c")
  show "res (run_cmd env c) w = Inr (succeeded (fst (spawn env w c)))"
    by (cases r)
       (simp_all add: sp res_def run_cmd_def try_except_def bind_def seq_def subprocess_run_def
          print_def ret_def)
  show "wld (run_cmd env c) w = snd (spawn env w c)"
    by (cases r)
       (simp_all add: sp wld_def run_cmd_def try_except_def bind_def seq_def subprocess_run_def
          print_def ret_def)
  show "trc (run_cmd env c) w = Run c (fst (spawn env w c)) # diagnostics (fst (spawn env w c))"
    by (cases r)
       (simp_all add: sp trc_def run_cmd_def try_except_def bind_def seq_def subprocess_run_def
          print_def ret_def)
qed

lemma commands_append: "commands (xs @ ys) = commands xs @ commands ys"
  by (induction xs rule: commands.induct) simp_all

lemma cmd_log_append: "cmd_log (xs @ ys) = cmd_log xs @ cmd_log ys"
  by (induction xs rule: cmd_log.induct) simp_all

lemma checks_append: "checks (xs @ ys) = checks xs @ checks ys"
  by (induction xs rule: checks.induct) simp_all

lemma deletions_append: "deletions (xs @ ys) = deletions xs @ deletions ys"
  by (induction xs rule: deletions.induct) simp_all

lemma printed_append: "printed (xs @ ys) = printed xs @ printed ys"
  by (induction xs rule: printed.induct) simp_all

lemma commands_cmd_log: "commands t = map fst (cmd_log t)"
  by (induction t rule: commands.induct) simp_all

lemma diagnostics_silent:
  "commands (diagnostics r) = []" "cmd_log (diagnostics r) = []"
  "checks (diagnostics r) = []" "deletions (diagnostics r) = []"
  by (cases r; simp)+

section \<open>The blocks of the script never raise\<close>

lemmas run_simps = res_ret wld_ret trc_ret res_print wld_print trc_print
  res_exists wld_exists trc_exists res_rmtree_ignore wld_rmtree trc_rmtree
  res_run_cmd wld_run_cmd trc_run_cmd

lemma res_clean_up: "res (clean_up env) w = Inr ()"
  by (simp add: clean_up_def seq_Inr [OF res_print] bind_Inr [OF res_exists] run_simps)

lemma trc_clean_up:
  "trc (clean_up env) w =
     Print (broom @ '' Cleaning up old git repository...'') #
     Exists ''.git'' (path_exists env w ''.git'') #
     (if path_exists env w ''.git'' then [Rmtree ''.git'' (fst (rmtree env w ''.git''))] else [])"
  by (simp add: clean_up_def seq_Inr [OF res_print] bind_Inr [OF res_exists] run_simps)

lemma res_stage_essentials: "res (stage_essentials env fs) w = Inr ()"
proof (induction fs arbitrary: w)
  case Nil
  show ?case by (simp add: res_ret)
next
  case (Cons f fs)
  have step: "res (bind (os_path_exists env f) (\<lambda>present.
            if present then discard (run_cmd env (add_cmd f)) else ret ())) w = Inr ()"
    by (simp add: bind_Inr [OF res_exists] discard_Inr [OF res_run_cmd] res_ret)
  show ?case by (simp add: seq_Inr [OF step] Cons.IH)
qed


lemma res_add_dir: "res (add_dir env p) w = Inr ()"
  by (simp add: add_dir_def bind_Inr [OF res_exists] seq_Inr [OF res_print]
      bind_Inr [OF res_run_cmd] seq_Inr [OF res_run_cmd] discard_Inr [OF res_run_cmd] res_ret)

lemma res_add_dirs: "res (add_dirs env ps) w = Inr ()"
  by (induction ps arbitrary: w) (simp_all add: res_ret seq_Inr [OF res_add_dir])

lemma res_push_essentials: "res (push_essentials env) w = Inr ()"
  by (simp add: push_essentials_def seq_Inr [OF res_print] seq_Inr [OF res_stage_essentials]
      seq_Inr [OF res_run_cmd] bind_Inr [OF res_run_cmd] res_print)

lemma res_push_additional: "res (push_additional env) w = Inr ()"
  by (simp add: push_additional_def seq_Inr [OF res_print] res_add_dirs)

lemma res_summary: "res summary w = Inr ()"
  by (simp add: summary_def seq_Inr [OF res_print] res_print)

lemma res_after_init: "res (after_init env) w = Inr ()"
  by (simp add: after_init_def seq_Inr [OF res_print] seq_Inr [OF res_run_cmd]
      seq_Inr [OF res_push_essentials] seq_Inr [OF res_push_additional] res_summary)

lemma res_main: "res (main env) w = Inr ()"
  by (simp add: main_def seq_Inr [OF res_print] seq_Inr [OF res_clean_up]
      bind_Inr [OF res_run_cmd] res_ret res_after_init)

section \<open>Staging the essential files\<close>

lemma stage_body_Inr:
  "res (bind (os_path_exists env f) (\<lambda>present.
          if present then discard (run_cmd env (add_cmd f)) else ret ())) w = Inr ()"
  by (simp add: bind_Inr [OF res_exists] discard_Inr [OF res_run_cmd] res_ret)

lemma trc_stage_essentials_step:
  "trc (stage_essentials env (f # fs)) w =
     (if path_exists env w f
      then Exists f True # Run (add_cmd f) (fst (spawn env w (add_cmd f))) #
           diagnostics (fst (spawn env w (add_cmd f))) @
           trc (stage_essentials env fs) (snd (spawn env w (add_cmd f)))
      else Exists f False # trc (stage_essentials env fs) w)"
  by (simp add: seq_Inr [OF stage_body_Inr] bind_Inr [OF res_exists]
      discard_Inr [OF res_run_cmd] run_simps)

lemma checks_stage_essentials:
  "map fst (checks (trc (stage_essentials env fs) w)) = fs"
proof (induction fs arbitrary: w)
  case Nil
  show ?case by (simp add: trc_ret)
next
  case (Cons f fs)
  show ?case
    by (simp add: trc_stage_essentials_step checks_append diagnostics_silent Cons.IH
        del: stage_essentials.simps)
qed

lemma commands_stage_essentials:
  "commands (trc (stage_essentials env fs) w) =
     map add_cmd (map fst (filter snd (checks (trc (stage_essentials env fs) w))))"
proof (induction fs arbitrary: w)
  case Nil
  show ?case by (simp add: trc_ret)
next
  case (Cons f fs)
  show ?case
    by (simp add: trc_stage_essentials_step checks_append commands_append diagnostics_silent
        Cons.IH del: stage_essentials.simps)
qed

lemma add_cmd_inj: "add_cmd p = add_cmd q \<longleftrightarrow> p = q"
  by (simp add: add_cmd_def)

text \<open>
  Claim C3. The loop over the essential files tests every file of the list, in order,
  and issues \<^verbatim>\<open>git add\<close> for a file exactly when the test found it present; it issues
  nothing else, so the number of staging commands is the number of essential files found.
\<close>

theorem essentials_staged_iff_present:
  "map fst (checks (trc (stage_essentials env essential_files) w)) = essential_files \<and>
   (\<forall>f \<in> set essential_files.
      add_cmd f \<in> set (commands (trc (stage_essentials env essential_files) w)) \<longleftrightarrow>
      (f, True) \<in> set (checks (trc (stage_essentials env essential_files) w))) \<and>
   commands (trc (stage_essentials env essential_files) w) =
     map add_cmd (map fst (filter snd (checks (trc (stage_essentials env essential_files) w)))) \<and>
   length (commands (trc (stage_essentials env essential_files) w)) =
     length (filter snd (checks (trc (stage_essentials env essential_files) w)))"
proof -
  let ?t = "trc (stage_essentials env essential_files) w"
  have c: "commands ?t = map add_cmd (map fst (filter snd (checks ?t)))"
    by (rule commands_stage_essentials)
  have "add_cmd f \<in> set (commands ?t) \<longleftrightarrow> (f, True) \<in> set (checks ?t)" for f
  proof -
    have "add_cmd f \<in> set (commands ?t) \<longleftrightarrow> f \<in> fst ` {x \<in> set (checks ?t). snd x}"
      unfolding c by (auto simp: add_cmd_inj image_iff)
    also have "\<dots> \<longleftrightarrow> (f, True) \<in> set (checks ?t)"
      by force
    finally show ?thesis .
  qed
  moreover have "length (commands ?t) = length (filter snd (checks ?t))"
    unfolding c by simp
  ultimately show ?thesis
    using c checks_stage_essentials [of env essential_files w] by simp
qed

lemma demo_stage_trace:
  "trc (stage_essentials fixture_os essential_files) demo_world =
     [Exists ''package.json'' True,
      Run ''git add package.json'' (Inr \<lparr>returncode = 0, stdout = [], stderr = []\<rparr>),
      Exists ''REPOSITORY_MANIFEST.md'' False, Exists ''SAAS_REQUIREMENTS.md'' False]"
  by (simp add: trc_stage_essentials_step trc_ret essential_files_def fixture_os_def
      demo_world_def add_cmd_def commit_cmd_def remote_cmd_def del: stage_essentials.simps(2))

theorem essentials_staged_iff_present_witness:
  "''package.json'' \<in> set essential_files \<and>
   (''package.json'', True) \<in> set (checks (trc (stage_essentials fixture_os essential_files) demo_world)) \<and>
   add_cmd ''package.json'' \<in> set (commands (trc (stage_essentials fixture_os essential_files) demo_world)) \<and>
   ''SAAS_REQUIREMENTS.md'' \<in> set essential_files \<and>
   (''SAAS_REQUIREMENTS.md'', True) \<notin> set (checks (trc (stage_essentials fixture_os essential_files) demo_world)) \<and>
   add_cmd ''SAAS_REQUIREMENTS.md'' \<notin> set (commands (trc (stage_essentials fixture_os essential_files) demo_world)) \<and>
   length (commands (trc (stage_essentials fixture_os essential_files) demo_world)) = 1"
proof -
  have m: "''package.json'' \<in> set essential_files" "''SAAS_REQUIREMENTS.md'' \<in> set essential_files"
    by (simp_all add: essential_files_def)
  show ?thesis
    using essentials_staged_iff_present [of fixture_os demo_world] m
    by (simp add: demo_stage_trace add_cmd_def)
qed

section \<open>The traces of the blocks\<close>

lemma trc_push_essentials:
  "\<exists>r1 r2 tail. trc (push_essentials env) w =
     Print (memo @ '' Adding essential files...'') #
     trc (stage_essentials env essential_files) w @
     Print (floppy_disk @ '' Creating initial commit...'') #
     Run (commit_cmd commit_msg) r1 # diagnostics r1 @
     Print (up_arrow @ ''  Pushing to GitHub...'') #
     Run force_push_cmd r2 # diagnostics r2 @ tail \<and>
     commands tail = [] \<and> checks tail = []"
  by (simp add: push_essentials_def seq_Inr [OF res_print] seq_Inr [OF res_stage_essentials]
      seq_Inr [OF res_run_cmd] bind_Inr [OF res_run_cmd] run_simps)

lemma commands_push_essentials:
  "commands (trc (push_essentials env) w) =
     commands (trc (stage_essentials env essential_files) w) @
     [commit_cmd commit_msg, force_push_cmd]"
proof -
  obtain r1 r2 tail where
    "trc (push_essentials env) w =
       Print (memo @ '' Adding essential files...'') #
       trc (stage_essentials env essential_files) w @
       Print (floppy_disk @ '' Creating initial commit...'') #
       Run (commit_cmd commit_msg) r1 # diagnostics r1 @
       Print (up_arrow @ ''  Pushing to GitHub...'') #
       Run force_push_cmd r2 # diagnostics r2 @ tail"
    and "commands tail = []"
    using trc_push_essentials [of env w] by blast
  then show ?thesis
    by (simp add: commands_append diagnostics_silent)
qed

lemma checks_push_essentials:
  "checks (trc (push_essentials env) w) = checks (trc (stage_essentials env essential_files) w)"
proof -
  obtain r1 r2 tail where
    "trc (push_essentials env) w =
       Print (memo @ '' Adding essential files...'') #
       trc (stage_essentials env essential_files) w @
       Print (floppy_disk @ '' Creating initial commit...'') #
       Run (commit_cmd commit_msg) r1 # diagnostics r1 @
       Print (up_arrow @ ''  Pushing to GitHub...'') #
       Run force_push_cmd r2 # diagnostics r2 @ tail"
    and "checks tail = []"
    using trc_push_essentials [of env w] by blast
  then show ?thesis
    by (simp add: checks_append diagnostics_silent)
qed

lemma cmd_log_add_dir:
  "cmd_log (trc (add_dir env p) w) =
     (if path_exists env w p then
        (if succeeded (fst (spawn env w (add_cmd p))) then
           [(add_cmd p, True),
            (commit_cmd (''Add '' @ p),
               succeeded (fst (spawn env (snd (spawn env w (add_cmd p)))
                  (commit_cmd (''Add '' @ p))))),
            (push_cmd,
               succeeded (fst (spawn env
                  (snd (spawn env (snd (spawn env w (add_cmd p))) (commit_cmd (''Add '' @ p))))
                  push_cmd)))]
         else [(add_cmd p, False)])
      else [])"
  by (simp add: add_dir_def bind_Inr [OF res_exists] seq_Inr [OF res_print]
      bind_Inr [OF res_run_cmd] seq_Inr [OF res_run_cmd] discard_Inr [OF res_run_cmd]
      run_simps cmd_log_append diagnostics_silent)

lemma checks_add_dir: "checks (trc (add_dir env p) w) = [(p, path_exists env w p)]"
  by (simp add: add_dir_def bind_Inr [OF res_exists] seq_Inr [OF res_print]
      bind_Inr [OF res_run_cmd] seq_Inr [OF res_run_cmd] discard_Inr [OF res_run_cmd]
      run_simps checks_append diagnostics_silent)

lemma trc_add_dirs_Cons:
  "trc (add_dirs env (p # ps)) w = trc (add_dir env p) w @ trc (add_dirs env ps) (wld (add_dir env p) w)"
  and wld_add_dirs_Cons:
  "wld (add_dirs env (p # ps)) w = wld (add_dirs env ps) (wld (add_dir env p) w)"
  by (simp_all add: seq_Inr [OF res_add_dir])

lemma trc_add_dirs_append:
  "trc (add_dirs env (xs @ ys)) w =
     trc (add_dirs env xs) w @ trc (add_dirs env ys) (wld (add_dirs env xs) w)"
  and wld_add_dirs_append:
  "wld (add_dirs env (xs @ ys)) w = wld (add_dirs env ys) (wld (add_dirs env xs) w)"
proof (induction xs arbitrary: w)
  case Nil
  {
    case 1 show ?case by (simp add: trc_ret wld_ret)
  next
    case 2 show ?case by (simp add: trc_ret wld_ret)
  }
next
  case (Cons x xs)
  {
    case 1 show ?case
      using Cons.IH by (simp add: trc_add_dirs_Cons wld_add_dirs_Cons del: add_dirs.simps)
  next
    case 2 show ?case
      using Cons.IH by (simp add: trc_add_dirs_Cons wld_add_dirs_Cons del: add_dirs.simps)
  }
qed

lemma commands_add_dir_subset:
  "set (commands (trc (add_dir env p) w)) \<subseteq> {add_cmd p, commit_cmd (''Add '' @ p), push_cmd}"
  by (auto simp: commands_cmd_log cmd_log_add_dir)

lemma commands_add_dirs_subset:
  "set (commands (trc (add_dirs env ps) w)) \<subseteq>
     add_cmd ` set ps \<union> (\<lambda>p. commit_cmd (''Add '' @ p)) ` set ps \<union> {push_cmd}"
proof (induction ps arbitrary: w)
  case Nil
  show ?case by (simp add: trc_ret)
next
  case (Cons p ps)
  show ?case
    using commands_add_dir_subset [of env p w] Cons.IH [of "wld (add_dir env p) w"]
    by (auto simp: trc_add_dirs_Cons commands_append simp del: add_dirs.simps)
qed

lemma force_push_not_additional:
  "force_push_cmd \<noteq> add_cmd p" "force_push_cmd \<noteq> commit_cmd m" "force_push_cmd \<noteq> push_cmd"
  by (simp_all add: force_push_cmd_def add_cmd_def commit_cmd_def push_cmd_def)

lemma force_push_not_in_add_dirs:
  "force_push_cmd \<notin> set (commands (trc (add_dirs env ps) w))"
  using commands_add_dirs_subset [of env ps w] force_push_not_additional by auto

lemma commands_push_additional:
  "commands (trc (push_additional env) w) = commands (trc (add_dirs env dirs_to_add) w)"
  by (simp add: push_additional_def seq_Inr [OF res_print] run_simps)

lemma printed_summary:
  "''The essential SaaS platform files have been pushed.'' \<in> set (printed (trc summary w))"
  and commands_summary: "commands (trc summary w) = []"
  by (simp_all add: summary_def seq_Inr [OF res_print] run_simps)

lemma after_init_runs:
  "\<exists>w1 w2. commands (trc (after_init env) w) =
       config_cmds @ [remote_cmd] @ commands (trc (push_essentials env) w1) @
       commands (trc (add_dirs env dirs_to_add) w2)"
  by (simp add: after_init_def seq_Inr [OF res_print] seq_Inr [OF res_run_cmd]
      seq_Inr [OF res_push_essentials] seq_Inr [OF res_push_additional] run_simps
      commands_append diagnostics_silent commands_push_additional
      commands_summary config_cmds_def) blast

lemma printed_after_init:
  "''The essential SaaS platform files have been pushed.'' \<in> set (printed (trc (after_init env) w))"
  by (simp add: after_init_def seq_Inr [OF res_print] seq_Inr [OF res_run_cmd]
      seq_Inr [OF res_push_essentials] seq_Inr [OF res_push_additional] run_simps
      printed_append printed_summary)

lemma trc_main:
  "trc (main env) w =
     Print (rocket @ '' Deploying NexStudio to GitHub...'') # trc (clean_up env) w @
     Print (file_folder @ '' Initializing new git repository...'') #
     Run init_cmd (fst (spawn env (wld (clean_up env) w) init_cmd)) #
     diagnostics (fst (spawn env (wld (clean_up env) w) init_cmd)) @
     (if succeeded (fst (spawn env (wld (clean_up env) w) init_cmd))
      then trc (after_init env) (snd (spawn env (wld (clean_up env) w) init_cmd))
      else [])"
  by (simp add: main_def seq_Inr [OF res_print] seq_Inr [OF res_clean_up]
      bind_Inr [OF res_run_cmd] run_simps)

lemma commands_clean_up: "commands (trc (clean_up env) w) = []"
  and cmd_log_clean_up: "cmd_log (trc (clean_up env) w) = []"
  and printed_clean_up: "printed (trc (clean_up env) w) = [broom @ '' Cleaning up old git repository...'']"
  by (simp_all add: trc_clean_up)

lemma printed_diagnostics:
  "''The essential SaaS platform files have been pushed.'' \<notin> set (printed (diagnostics r))"
  by (cases r) simp_all

section \<open>Whole runs\<close>

lemmas eval_defs = main_def after_init_def push_essentials_def push_additional_def summary_def
  clean_up_def add_dir_def run_cmd_def subprocess_run_def shutil_rmtree_def os_path_exists_def
  print_def try_except_def discard_def seq_def bind_def ret_def trc_def wld_def res_def
  fixture_os_def essential_files_def dirs_to_add_def init_cmd_def remote_cmd_def add_cmd_def
  commit_cmd_def force_push_cmd_def push_cmd_def commit_msg_def config_cmds_def

lemma cmd_log_main:
  "cmd_log (trc (main env) w) =
     (init_cmd, succeeded (fst (spawn env (wld (clean_up env) w) init_cmd))) #
     (if succeeded (fst (spawn env (wld (clean_up env) w) init_cmd))
      then cmd_log (trc (after_init env) (snd (spawn env (wld (clean_up env) w) init_cmd)))
      else [])"
  by (simp add: trc_main cmd_log_append cmd_log_clean_up diagnostics_silent)

lemma commands_main:
  "commands (trc (main env) w) =
     init_cmd #
     (if succeeded (fst (spawn env (wld (clean_up env) w) init_cmd))
      then commands (trc (after_init env) (snd (spawn env (wld (clean_up env) w) init_cmd)))
      else [])"
  by (simp add: trc_main commands_append commands_clean_up diagnostics_silent)

lemma printed_main_failed:
  assumes "\<not> succeeded (fst (spawn env (wld (clean_up env) w) init_cmd))"
  shows "''The essential SaaS platform files have been pushed.'' \<notin> set (printed (trc (main env) w))"
  using assms printed_diagnostics [of "fst (spawn env (wld (clean_up env) w) init_cmd)"]
  by (simp add: trc_main printed_append printed_clean_up rocket_def broom_def file_folder_def)

lemma printed_main_succeeded:
  assumes "succeeded (fst (spawn env (wld (clean_up env) w) init_cmd))"
  shows "''The essential SaaS platform files have been pushed.'' \<in> set (printed (trc (main env) w))"
  using assms by (simp add: trc_main printed_append printed_after_init)

text \<open>
  Claim C1. The first command of every run is \<^verbatim>\<open>git init -b main\<close>. When it fails,
  it is the only command of the run, and \<^verbatim>\<open>main\<close> returns before the closing summary.
  When it succeeds, the three configuration commands and the remote-add command follow,
  the commit and the forced push are issued, and the run reaches the closing summary,
  whatever the other commands do: no other failure ends the run early.
\<close>

theorem init_failure_halts:
  "cmd_log (trc (main env) w) \<noteq> [] \<and>
   fst (hd (cmd_log (trc (main env) w))) = init_cmd \<and>
   (\<not> snd (hd (cmd_log (trc (main env) w))) \<longrightarrow>
      commands (trc (main env) w) = [init_cmd] \<and>
      ''The essential SaaS platform files have been pushed.'' \<notin> set (printed (trc (main env) w))) \<and>
   (snd (hd (cmd_log (trc (main env) w))) \<longrightarrow>
      take 5 (commands (trc (main env) w)) = init_cmd # config_cmds @ [remote_cmd] \<and>
      commit_cmd commit_msg \<in> set (commands (trc (main env) w)) \<and>
      force_push_cmd \<in> set (commands (trc (main env) w)) \<and>
      ''The essential SaaS platform files have been pushed.'' \<in> set (printed (trc (main env) w)))"
proof (cases "succeeded (fst (spawn env (wld (clean_up env) w) init_cmd))")
  case False
  then show ?thesis
    using printed_main_failed [of env w] by (simp add: cmd_log_main commands_main)
next
  case True
  let ?w1 = "snd (spawn env (wld (clean_up env) w) init_cmd)"
  obtain w2 w3 where a: "commands (trc (after_init env) ?w1) =
       config_cmds @ [remote_cmd] @ commands (trc (push_essentials env) w2) @
       commands (trc (add_dirs env dirs_to_add) w3)"
    using after_init_runs [of env ?w1] by blast
  have "take 5 (commands (trc (main env) w)) = init_cmd # config_cmds @ [remote_cmd]"
    using True by (simp add: commands_main a config_cmds_def)
  moreover have "commit_cmd commit_msg \<in> set (commands (trc (main env) w))"
    and "force_push_cmd \<in> set (commands (trc (main env) w))"
    using True by (simp_all add: commands_main a commands_push_essentials)
  ultimately show ?thesis
    using True printed_main_succeeded [of env w] by (simp add: cmd_log_main)
qed

lemma init_fails_run: "cmd_log (trc (main fixture_os) init_fails_world) = [(init_cmd, False)]"
  by (simp add: eval_defs init_fails_world_def)

lemma demo_run_prefix:
  "take 5 (cmd_log (trc (main fixture_os) demo_world)) =
     [(init_cmd, True), (''git config core.autocrlf false'', False),
      (''git config core.filemode false'', False), (''git config core.compression 0'', True),
      (remote_cmd, False)]"
  by (simp add: eval_defs demo_world_def)

theorem init_failure_halts_witness:
  "\<not> snd (hd (cmd_log (trc (main fixture_os) init_fails_world))) \<and>
   commands (trc (main fixture_os) init_fails_world) = [init_cmd] \<and>
   snd (hd (cmd_log (trc (main fixture_os) demo_world))) \<and>
   take 5 (commands (trc (main fixture_os) demo_world)) = init_cmd # config_cmds @ [remote_cmd] \<and>
   force_push_cmd \<in> set (commands (trc (main fixture_os) demo_world))"
proof -
  have "snd (hd (take 5 (cmd_log (trc (main fixture_os) demo_world))))"
    by (simp only: demo_run_prefix) simp
  then have "snd (hd (cmd_log (trc (main fixture_os) demo_world)))"
    by (cases "cmd_log (trc (main fixture_os) demo_world)") simp_all
  then show ?thesis
    using init_failure_halts [of fixture_os init_fails_world]
      init_failure_halts [of fixture_os demo_world]
    by (simp add: init_fails_run)
qed

section \<open>Removing the old repository\<close>

text \<open>
  Claim C8. The clean-up step tests \<^verbatim>\<open>.git\<close> and starts its removal exactly when
  the test found it; it never raises, also when the removal met an error. In every case
  the run goes on to print the next message and to issue \<^verbatim>\<open>git init -b main\<close>.
\<close>

theorem clean_up_never_aborts:
  "res (clean_up env) w = Inr () \<and>
   checks (trc (clean_up env) w) = [(''.git'', path_exists env w ''.git'')] \<and>
   deletions (trc (clean_up env) w) =
     (if path_exists env w ''.git'' then [(''.git'', fst (rmtree env w ''.git'') \<noteq> None)] else []) \<and>
   (\<exists>rest. trc (main env) w =
      Print (rocket @ '' Deploying NexStudio to GitHub...'') # trc (clean_up env) w @
      Print (file_folder @ '' Initializing new git repository...'') #
      Run init_cmd (fst (spawn env (wld (clean_up env) w) init_cmd)) # rest)"
  by (simp add: res_clean_up trc_main) (simp add: trc_clean_up)

theorem clean_up_never_aborts_witness:
  "path_exists fixture_os demo_world ''.git'' \<and>
   fst (rmtree fixture_os demo_world ''.git'') = Some (Exception ''Permission denied'') \<and>
   res (clean_up fixture_os) demo_world = Inr () \<and>
   deletions (trc (clean_up fixture_os) demo_world) = [(''.git'', True)] \<and>
   \<not> path_exists fixture_os bare_world ''.git'' \<and>
   deletions (trc (clean_up fixture_os) bare_world) = []"
  using clean_up_never_aborts [of fixture_os demo_world]
    clean_up_never_aborts [of fixture_os bare_world]
  by (simp add: fixture_os_def demo_world_def bare_world_def)

section \<open>The essential files\<close>

lemma none_present:
  assumes "\<forall>f \<in> set (map fst cs). (f, True) \<notin> set cs"
  shows "filter snd cs = []"
  using assms by (induction cs) auto

text \<open>
  Claim C9. When the tests find none of the essential files, the block of lines 41 to 69
  issues no staging command, and still issues the commit with the fixed message and
  then the forced push, each once.
\<close>

theorem essentials_commit_and_push_without_files:
  assumes "\<forall>f \<in> set essential_files. (f, True) \<notin> set (checks (trc (push_essentials env) w))"
  shows "commands (trc (push_essentials env) w) = [commit_cmd commit_msg, force_push_cmd]"
proof -
  let ?cs = "checks (trc (stage_essentials env essential_files) w)"
  have "\<forall>f \<in> set (map fst ?cs). (f, True) \<notin> set ?cs"
    using assms by (simp add: checks_push_essentials checks_stage_essentials)
  then have "filter snd ?cs = []"
    by (rule none_present)
  then have "commands (trc (stage_essentials env essential_files) w) = []"
    by (simp add: commands_stage_essentials)
  then show ?thesis
    by (simp add: commands_push_essentials)
qed

lemma bare_essentials_checks:
  "checks (trc (push_essentials fixture_os) bare_world) =
     [(''package.json'', False), (''REPOSITORY_MANIFEST.md'', False),
      (''SAAS_REQUIREMENTS.md'', False)]"
  by (simp add: eval_defs bare_world_def)

theorem essentials_commit_and_push_without_files_witness:
  "(''package.json'', True) \<notin> set (checks (trc (push_essentials fixture_os) bare_world)) \<and>
   (''REPOSITORY_MANIFEST.md'', True) \<notin> set (checks (trc (push_essentials fixture_os) bare_world)) \<and>
   (''SAAS_REQUIREMENTS.md'', True) \<notin> set (checks (trc (push_essentials fixture_os) bare_world)) \<and>
   commands (trc (push_essentials fixture_os) bare_world) = [commit_cmd commit_msg, force_push_cmd]"
proof -
  have h: "\<forall>f \<in> set essential_files.
      (f, True) \<notin> set (checks (trc (push_essentials fixture_os) bare_world))"
    by (simp add: bare_essentials_checks)
  show ?thesis
    using essentials_commit_and_push_without_files [OF h] by (simp add: bare_essentials_checks)
qed

section \<open>The forced push\<close>

lemma force_push_not_earlier:
  "force_push_cmd \<noteq> init_cmd" "force_push_cmd \<notin> set config_cmds"
  "force_push_cmd \<noteq> remote_cmd" "force_push_cmd \<noteq> commit_cmd m"
  by (simp_all add: force_push_cmd_def init_cmd_def config_cmds_def remote_cmd_def commit_cmd_def)

lemma force_push_not_staged:
  "force_push_cmd \<notin> set (commands (trc (stage_essentials env fs) w))"
  using force_push_not_additional(1) by (auto simp: commands_stage_essentials)

text \<open>
  Claim C4. In every run in which \<^verbatim>\<open>git init\<close> succeeded, \<^verbatim>\<open>git push -f origin main\<close>
  is issued exactly once, and it is the command that follows the commit of the essential
  files. No premise is made on the configuration and remote-add commands: they may fail.
\<close>

theorem force_push_once_after_commit:
  assumes "snd (hd (cmd_log (trc (main env) w)))"
  shows "count_list (commands (trc (main env) w)) force_push_cmd = 1 \<and>
    (\<exists>pre post. commands (trc (main env) w) =
        pre @ [commit_cmd commit_msg, force_push_cmd] @ post \<and>
      force_push_cmd \<notin> set pre \<and> force_push_cmd \<notin> set post)"
proof -
  let ?w1 = "snd (spawn env (wld (clean_up env) w) init_cmd)"
  have ok: "succeeded (fst (spawn env (wld (clean_up env) w) init_cmd))"
    using assms by (simp add: cmd_log_main)
  obtain w2 w3 where a: "commands (trc (after_init env) ?w1) =
       config_cmds @ [remote_cmd] @ commands (trc (push_essentials env) w2) @
       commands (trc (add_dirs env dirs_to_add) w3)"
    using after_init_runs [of env ?w1] by blast
  let ?pre = "init_cmd # config_cmds @ [remote_cmd] @
    commands (trc (stage_essentials env essential_files) w2)"
  let ?post = "commands (trc (add_dirs env dirs_to_add) w3)"
  have split: "commands (trc (main env) w) = ?pre @ [commit_cmd commit_msg, force_push_cmd] @ ?post"
    using ok by (simp add: commands_main a commands_push_essentials)
  have pre: "force_push_cmd \<notin> set ?pre"
    using force_push_not_earlier force_push_not_staged [of env essential_files w2]
    by simp
  have post: "force_push_cmd \<notin> set ?post"
    by (rule force_push_not_in_add_dirs)
  have "count_list ?pre force_push_cmd = 0" "count_list ?post force_push_cmd = 0"
    using pre post by (simp_all only: count_list_0_iff not_False_eq_True)
  then have "count_list (commands (trc (main env) w)) force_push_cmd = 1"
    using force_push_not_earlier(4) [of commit_msg]
    by (simp only: split count_list_append count_list.simps) simp
  then show ?thesis
    using split pre post by blast
qed

lemma demo_run_commands:
  "commands (trc (main fixture_os) demo_world) =
     [init_cmd, ''git config core.autocrlf false'', ''git config core.filemode false'',
      ''git config core.compression 0'', remote_cmd, add_cmd ''package.json'',
      commit_cmd commit_msg, force_push_cmd,
      add_cmd ''packages/domain-lock'', commit_cmd ''Add packages/domain-lock'', push_cmd,
      add_cmd ''apps/web/middleware.ts'', commit_cmd ''Add apps/web/middleware.ts'', push_cmd,
      add_cmd ''docs'']"
  by (simp add: eval_defs demo_world_def)

theorem force_push_once_after_commit_witness:
  "snd (hd (cmd_log (trc (main fixture_os) demo_world))) \<and>
   (remote_cmd, False) \<in> set (take 5 (cmd_log (trc (main fixture_os) demo_world))) \<and>
   count_list (commands (trc (main fixture_os) demo_world)) force_push_cmd = 1"
proof -
  have "snd (hd (take 5 (cmd_log (trc (main fixture_os) demo_world))))"
    by (simp only: demo_run_prefix) simp
  then have h: "snd (hd (cmd_log (trc (main fixture_os) demo_world)))"
    by (cases "cmd_log (trc (main fixture_os) demo_world)") simp_all
  have "(remote_cmd, False) \<in> set (take 5 (cmd_log (trc (main fixture_os) demo_world)))"
    by (simp only: demo_run_prefix) simp
  then show ?thesis
    using h force_push_once_after_commit [OF h] by simp
qed

section \<open>The additional paths\<close>

text \<open>
  Claim C10. For a path that exists, the cycle of lines 84 to 88 first issues the staging
  command. When staging fails, that is the only command of the cycle: neither the commit
  nor the push is issued. When staging succeeds, the commit and then the push are issued,
  whatever the commit returns.
\<close>

theorem staging_gates_commit_and_push:
  assumes "path_exists env w p"
  shows "cmd_log (trc (add_dir env p) w) \<noteq> [] \<and>
    fst (hd (cmd_log (trc (add_dir env p) w))) = add_cmd p \<and>
    (\<not> snd (hd (cmd_log (trc (add_dir env p) w))) \<longrightarrow>
       commands (trc (add_dir env p) w) = [add_cmd p]) \<and>
    (snd (hd (cmd_log (trc (add_dir env p) w))) \<longrightarrow>
       commands (trc (add_dir env p) w) = [add_cmd p, commit_cmd (''Add '' @ p), push_cmd])"
  using assms by (simp add: commands_cmd_log cmd_log_add_dir)

lemma demo_docs_cycle:
  "cmd_log (trc (add_dir fixture_os ''docs'') demo_world) = [(add_cmd ''docs'', False)]"
  by (simp add: eval_defs demo_world_def)

lemma demo_domain_lock_cycle:
  "cmd_log (trc (add_dir fixture_os ''packages/domain-lock'') demo_world) =
     [(add_cmd ''packages/domain-lock'', True),
      (commit_cmd ''Add packages/domain-lock'', False), (push_cmd, True)]"
  by (simp add: eval_defs demo_world_def)

lemma demo_present:
  "path_exists fixture_os demo_world ''docs''"
  "path_exists fixture_os demo_world ''packages/domain-lock''"
  "path_exists fixture_os demo_world ''apps/web/middleware.ts''"
  by (simp_all add: fixture_os_def demo_world_def)

theorem staging_gates_commit_and_push_witness:
  "path_exists fixture_os demo_world ''docs'' \<and>
   \<not> snd (hd (cmd_log (trc (add_dir fixture_os ''docs'') demo_world))) \<and>
   commands (trc (add_dir fixture_os ''docs'') demo_world) = [add_cmd ''docs''] \<and>
   path_exists fixture_os demo_world ''packages/domain-lock'' \<and>
   snd (hd (cmd_log (trc (add_dir fixture_os ''packages/domain-lock'') demo_world))) \<and>
   (commit_cmd ''Add packages/domain-lock'', False)
     \<in> set (cmd_log (trc (add_dir fixture_os ''packages/domain-lock'') demo_world)) \<and>
   commands (trc (add_dir fixture_os ''packages/domain-lock'') demo_world) =
     [add_cmd ''packages/domain-lock'', commit_cmd ''Add packages/domain-lock'', push_cmd]"
  using staging_gates_commit_and_push [OF demo_present(1)]
    staging_gates_commit_and_push [OF demo_present(2)] demo_present
  by (simp add: demo_docs_cycle demo_domain_lock_cycle)

text \<open>
  Claim C7. The cycles of the additional paths do not depend on one another. Take any path
  of the list and suppose it exists when the loop reaches it. Whatever the cycles of the
  paths before it did, failures included, its staging command is issued right after their
  commands, and when that succeeds its commit and its push follow.
\<close>

theorem additional_cycles_independent:
  assumes "dirs_to_add = pre @ p # post"
    and "path_exists env (wld (add_dirs env pre) w) p"
  shows "\<exists>staged rest.
      cmd_log (trc (add_dirs env dirs_to_add) w) =
        cmd_log (trc (add_dirs env pre) w) @ (add_cmd p, staged) # rest \<and>
      (staged \<longrightarrow> take 2 (map fst rest) = [commit_cmd (''Add '' @ p), push_cmd])"
proof -
  let ?v = "wld (add_dirs env pre) w"
  have "cmd_log (trc (add_dirs env dirs_to_add) w) =
      cmd_log (trc (add_dirs env pre) w) @ cmd_log (trc (add_dir env p) ?v) @
      cmd_log (trc (add_dirs env post) (wld (add_dir env p) ?v))"
    unfolding assms(1)
    by (simp add: trc_add_dirs_append trc_add_dirs_Cons cmd_log_append del: add_dirs.simps)
  then show ?thesis
    using assms(2) by (auto simp: cmd_log_add_dir)
qed

lemma demo_after_first: "wld (add_dirs fixture_os [''packages/domain-lock'']) demo_world = demo_world"
  by (simp add: eval_defs demo_world_def)

lemma demo_first_cycle:
  "cmd_log (trc (add_dirs fixture_os [''packages/domain-lock'']) demo_world) =
     [(add_cmd ''packages/domain-lock'', True),
      (commit_cmd ''Add packages/domain-lock'', False), (push_cmd, True)]"
  by (simp add: eval_defs demo_world_def)

lemma demo_additional_log:
  "cmd_log (trc (add_dirs fixture_os dirs_to_add) demo_world) =
     [(add_cmd ''packages/domain-lock'', True),
      (commit_cmd ''Add packages/domain-lock'', False), (push_cmd, True),
      (add_cmd ''apps/web/middleware.ts'', True),
      (commit_cmd ''Add apps/web/middleware.ts'', True), (push_cmd, True),
      (add_cmd ''docs'', False)]"
  by (simp add: eval_defs demo_world_def)

theorem additional_cycles_independent_witness:
  "dirs_to_add = [''packages/domain-lock''] @ ''apps/web/middleware.ts'' # [''.github'', ''docs'', ''nginx''] \<and>
   path_exists fixture_os (wld (add_dirs fixture_os [''packages/domain-lock'']) demo_world)
     ''apps/web/middleware.ts'' \<and>
   (commit_cmd ''Add packages/domain-lock'', False)
     \<in> set (cmd_log (trc (add_dirs fixture_os [''packages/domain-lock'']) demo_world)) \<and>
   take 6 (cmd_log (trc (add_dirs fixture_os dirs_to_add) demo_world)) =
     cmd_log (trc (add_dirs fixture_os [''packages/domain-lock'']) demo_world) @
     [(add_cmd ''apps/web/middleware.ts'', True),
      (commit_cmd ''Add apps/web/middleware.ts'', True), (push_cmd, True)]"
proof -
  have s: "dirs_to_add =
      [''packages/domain-lock''] @ ''apps/web/middleware.ts'' # [''.github'', ''docs'', ''nginx'']"
    by (simp add: dirs_to_add_def)
  have e: "path_exists fixture_os (wld (add_dirs fixture_os [''packages/domain-lock'']) demo_world)
     ''apps/web/middleware.ts''"
    by (simp only: demo_after_first demo_present)
  show ?thesis
    using s e additional_cycles_independent [OF s e]
    by (simp add: demo_first_cycle demo_additional_log del: add_dirs.simps)
qed

section \<open>What each existing additional path gets\<close>

lemma cmd_distinct:
  "add_cmd q \<noteq> commit_cmd m" "add_cmd q \<noteq> push_cmd" "commit_cmd m \<noteq> push_cmd"
  "commit_cmd m \<noteq> add_cmd q" "push_cmd \<noteq> add_cmd q" "push_cmd \<noteq> commit_cmd m"
  by (simp_all add: add_cmd_def commit_cmd_def push_cmd_def)

lemma commit_cmd_inj: "commit_cmd (''Add '' @ q) = commit_cmd (''Add '' @ p) \<longleftrightarrow> q = p"
  by (simp add: commit_cmd_def)

lemma commands_add_dir:
  "commands (trc (add_dir env p) w) =
     (if path_exists env w p then
        (if succeeded (fst (spawn env w (add_cmd p)))
         then [add_cmd p, commit_cmd (''Add '' @ p), push_cmd] else [add_cmd p])
      else [])"
  by (simp add: commands_cmd_log cmd_log_add_dir)

lemma checks_add_dirs: "map fst (checks (trc (add_dirs env ps) w)) = ps"
proof (induction ps arbitrary: w)
  case Nil
  show ?case by (simp add: trc_ret)
next
  case (Cons p ps)
  show ?case
    by (simp add: trc_add_dirs_Cons checks_append checks_add_dir Cons.IH del: add_dirs.simps)
qed

lemma staged_iff_present:
  "add_cmd q \<in> set (commands (trc (add_dirs env ps) w)) \<longleftrightarrow>
   (q, True) \<in> set (checks (trc (add_dirs env ps) w))"
proof (induction ps arbitrary: w)
  case Nil
  show ?case by (simp add: trc_ret)
next
  case (Cons p ps)
  have "add_cmd q \<in> set (commands (trc (add_dir env p) w)) \<longleftrightarrow>
      (q, True) \<in> set (checks (trc (add_dir env p) w))"
    by (auto simp: commands_add_dir checks_add_dir cmd_distinct add_cmd_inj)
  then show ?case
    by (simp add: trc_add_dirs_Cons commands_append checks_append Cons.IH del: add_dirs.simps)
qed

lemma committed_iff_staged:
  "commit_cmd (''Add '' @ q) \<in> set (commands (trc (add_dirs env ps) w)) \<longleftrightarrow>
   (add_cmd q, True) \<in> set (cmd_log (trc (add_dirs env ps) w))"
proof (induction ps arbitrary: w)
  case Nil
  show ?case by (simp add: trc_ret)
next
  case (Cons p ps)
  have "commit_cmd (''Add '' @ q) \<in> set (commands (trc (add_dir env p) w)) \<longleftrightarrow>
      (add_cmd q, True) \<in> set (cmd_log (trc (add_dir env p) w))"
    using commit_cmd_inj [of q p]
    by (auto simp: commands_add_dir cmd_log_add_dir cmd_distinct add_cmd_inj)
  then show ?case
    using Cons.IH [of "wld (add_dir env p) w"]
    by (simp add: trc_add_dirs_Cons commands_append cmd_log_append del: add_dirs.simps)
qed

lemma pushes_count_staged:
  assumes "set ps \<subseteq> S"
  shows "count_list (commands (trc (add_dirs env ps) w)) push_cmd =
    length (filter (\<lambda>x. snd x \<and> fst x \<in> add_cmd ` S) (cmd_log (trc (add_dirs env ps) w)))"
  using assms
proof (induction ps arbitrary: w)
  case Nil
  show ?case by (simp add: trc_ret)
next
  case (Cons p ps)
  have range: "commit_cmd m \<notin> add_cmd ` S" "push_cmd \<notin> add_cmd ` S" for m
    using cmd_distinct by auto
  have "p \<in> S" using Cons.prems by simp
  then have "count_list (commands (trc (add_dir env p) w)) push_cmd =
      length (filter (\<lambda>x. snd x \<and> fst x \<in> add_cmd ` S) (cmd_log (trc (add_dir env p) w)))"
    using range by (simp add: commands_add_dir cmd_log_add_dir cmd_distinct)
  moreover have "set ps \<subseteq> S" using Cons.prems by simp
  ultimately show ?case
    by (simp add: trc_add_dirs_Cons commands_append cmd_log_append Cons.IH
        del: add_dirs.simps)
qed

text \<open>
  Claim C2 says that for every additional path that exists the stage, the commit and the
  push are all attempted, a staging failure included. Line 86 makes the commit and the
  push depend on the staging: in \<open>demo_world\<close> the path \<^verbatim>\<open>docs\<close> exists, its staging fails,
  and its cycle issues nothing else.
\<close>

lemma demo_additional_checks:
  "checks (trc (add_dirs fixture_os dirs_to_add) demo_world) =
     [(''packages/domain-lock'', True), (''apps/web/middleware.ts'', True),
      (''.github'', False), (''docs'', True), (''nginx'', False)]"
  by (simp add: eval_defs demo_world_def)

theorem all_steps_attempted_counterexample:
  "''docs'' \<in> set dirs_to_add \<and>
   (''docs'', True) \<in> set (checks (trc (add_dirs fixture_os dirs_to_add) demo_world)) \<and>
   (add_cmd ''docs'', False) \<in> set (cmd_log (trc (add_dirs fixture_os dirs_to_add) demo_world)) \<and>
   commit_cmd ''Add docs'' \<notin> set (commands (trc (add_dirs fixture_os dirs_to_add) demo_world)) \<and>
   commands (trc (add_dir fixture_os ''docs'') demo_world) = [add_cmd ''docs'']"
proof -
  have "''docs'' \<in> set dirs_to_add"
    by (simp add: dirs_to_add_def)
  moreover have "commit_cmd ''Add docs'' \<notin> set (commands (trc (add_dirs fixture_os dirs_to_add) demo_world))"
    by (simp add: commands_cmd_log demo_additional_log add_cmd_def commit_cmd_def push_cmd_def)
  ultimately show ?thesis
    by (simp add: demo_additional_checks demo_additional_log commands_cmd_log demo_docs_cycle)
qed

text \<open>
  Claim C2, amended. The loop tests every additional path, in order. For every path of
  the list, the staging command is issued exactly when the test found the path, and the
  commit for the path is issued exactly when its staging succeeded. The pushes are as many
  as the successful stagings: each follows its commit, whatever the commit returned.
\<close>

theorem additional_paths_staged_then_committed:
  "map fst (checks (trc (add_dirs env dirs_to_add) w)) = dirs_to_add \<and>
   (\<forall>p \<in> set dirs_to_add.
      add_cmd p \<in> set (commands (trc (add_dirs env dirs_to_add) w)) \<longleftrightarrow>
      (p, True) \<in> set (checks (trc (add_dirs env dirs_to_add) w))) \<and>
   (\<forall>p \<in> set dirs_to_add.
      commit_cmd (''Add '' @ p) \<in> set (commands (trc (add_dirs env dirs_to_add) w)) \<longleftrightarrow>
      (add_cmd p, True) \<in> set (cmd_log (trc (add_dirs env dirs_to_add) w))) \<and>
   count_list (commands (trc (add_dirs env dirs_to_add) w)) push_cmd =
     length (filter (\<lambda>x. snd x \<and> fst x \<in> add_cmd ` set dirs_to_add)
       (cmd_log (trc (add_dirs env dirs_to_add) w)))"
  using checks_add_dirs [of env dirs_to_add w] staged_iff_present [of _ env dirs_to_add w]
    committed_iff_staged [of _ env dirs_to_add w]
    pushes_count_staged [of dirs_to_add "set dirs_to_add" env w]
  by blast

theorem additional_paths_staged_then_committed_witness:
  "''docs'' \<in> set dirs_to_add \<and>
   (''docs'', True) \<in> set (checks (trc (add_dirs fixture_os dirs_to_add) demo_world)) \<and>
   add_cmd ''docs'' \<in> set (commands (trc (add_dirs fixture_os dirs_to_add) demo_world)) \<and>
   (add_cmd ''docs'', True) \<notin> set (cmd_log (trc (add_dirs fixture_os dirs_to_add) demo_world)) \<and>
   commit_cmd (''Add '' @ ''docs'') \<notin> set (commands (trc (add_dirs fixture_os dirs_to_add) demo_world)) \<and>
   ''packages/domain-lock'' \<in> set dirs_to_add \<and>
   (add_cmd ''packages/domain-lock'', True)
     \<in> set (cmd_log (trc (add_dirs fixture_os dirs_to_add) demo_world)) \<and>
   commit_cmd (''Add '' @ ''packages/domain-lock'')
     \<in> set (commands (trc (add_dirs fixture_os dirs_to_add) demo_world)) \<and>
   count_list (commands (trc (add_dirs fixture_os dirs_to_add) demo_world)) push_cmd = 2"
proof -
  have m: "''docs'' \<in> set dirs_to_add" "''packages/domain-lock'' \<in> set dirs_to_add"
    by (simp_all add: dirs_to_add_def)
  have d: "(add_cmd ''docs'', True) \<notin> set (cmd_log (trc (add_dirs fixture_os dirs_to_add) demo_world))"
    by (simp add: demo_additional_log add_cmd_def commit_cmd_def push_cmd_def)
  have n: "length (filter (\<lambda>x. snd x \<and> fst x \<in> add_cmd ` set dirs_to_add)
       (cmd_log (trc (add_dirs fixture_os dirs_to_add) demo_world))) = 2"
    by (simp only: demo_additional_log)
       (simp add: dirs_to_add_def add_cmd_def commit_cmd_def push_cmd_def)
  show ?thesis
    using additional_paths_staged_then_committed [of fixture_os demo_world] m d n
    by (simp add: demo_additional_checks demo_additional_log)
qed

section \<open>Quiet hosts\<close>

lemma lift_ret: "lift (ret x) = ret x"
  by (simp add: lift_def ret_def)

lemma lift_bind: "lift (bind m f) = bind (lift m) (\<lambda>x. lift (f x))"
  by (rule ext) (simp add: lift_def bind_def split: prod.split sum.split)

lemma lift_seq: "lift (seq m k) = seq (lift m) (lift k)"
  by (simp add: seq_def lift_bind)

lemma lift_discard: "lift (discard m) = discard (lift m)"
  by (simp add: discard_def lift_bind lift_ret)

lemma lift_if: "lift (if c then a else b) = (if c then lift a else lift b)"
  by simp

lemma lift_try_except:
  "lift (try_except m handler) = try_except_Exception (lift m) (\<lambda>e. lift (handler e))"
  by (rule ext)
     (simp add: lift_def try_except_def try_except_Exception_def split: prod.split sum.split)

lemma res_lift: "res (lift m) w = map_sum Of_Exception id (res m w)"
  and wld_lift: "wld (lift m) w = wld m w"
  and trc_lift: "trc (lift m) w = trc m w"
  by (simp_all add: res_def wld_def trc_def lift_def split: prod.split sum.split)

lemmas lift_simps = lift_ret lift_bind lift_seq lift_discard lift_if lift_try_except

lemma print_on_quiet: "quiet h \<Longrightarrow> print_on h s = lift (print s)"
  by (rule ext) (simp add: quiet_def print_on_def print_def lift_def)

lemma subprocess_run_on_quiet:
  "quiet h \<Longrightarrow> subprocess_run_on h c = lift (subprocess_run (os_of h) c)"
  by (rule ext) (simp add: quiet_def subprocess_run_on_def)

lemma run_cmd_on_quiet: "quiet h \<Longrightarrow> run_cmd_on h c = lift (run_cmd (os_of h) c)"
  by (simp add: run_cmd_on_def run_cmd_def lift_simps print_on_quiet subprocess_run_on_quiet cong: if_cong)

lemma clean_up_on_quiet: "quiet h \<Longrightarrow> clean_up_on h = lift (clean_up (os_of h))"
  by (simp add: clean_up_on_def clean_up_def lift_simps print_on_quiet os_path_exists_on_def
      shutil_rmtree_on_def cong: if_cong)

lemma stage_essentials_on_quiet:
  "quiet h \<Longrightarrow> stage_essentials_on h fs = lift (stage_essentials (os_of h) fs)"
  by (induction fs) (simp_all add: lift_simps run_cmd_on_quiet os_path_exists_on_def cong: if_cong)

lemma push_essentials_on_quiet:
  "quiet h \<Longrightarrow> push_essentials_on h = lift (push_essentials (os_of h))"
  by (simp add: push_essentials_on_def push_essentials_def lift_simps print_on_quiet
      run_cmd_on_quiet stage_essentials_on_quiet cong: if_cong)

lemma add_dir_on_quiet: "quiet h \<Longrightarrow> add_dir_on h p = lift (add_dir (os_of h) p)"
  by (simp add: add_dir_on_def add_dir_def lift_simps print_on_quiet run_cmd_on_quiet
      os_path_exists_on_def cong: if_cong)

lemma add_dirs_on_quiet: "quiet h \<Longrightarrow> add_dirs_on h ps = lift (add_dirs (os_of h) ps)"
  by (induction ps) (simp_all add: lift_simps add_dir_on_quiet cong: if_cong)

lemma push_additional_on_quiet:
  "quiet h \<Longrightarrow> push_additional_on h = lift (push_additional (os_of h))"
  by (simp add: push_additional_on_def push_additional_def lift_simps print_on_quiet
      add_dirs_on_quiet cong: if_cong)

lemma summary_on_quiet: "quiet h \<Longrightarrow> summary_on h = lift summary"
  by (simp add: summary_on_def summary_def lift_simps print_on_quiet cong: if_cong)

lemma after_init_on_quiet: "quiet h \<Longrightarrow> after_init_on h = lift (after_init (os_of h))"
  by (simp add: after_init_on_def after_init_def lift_simps print_on_quiet run_cmd_on_quiet
      push_essentials_on_quiet push_additional_on_quiet summary_on_quiet cong: if_cong)

lemma main_on_quiet: "quiet h \<Longrightarrow> main_on h = lift (main (os_of h))"
  by (simp add: main_on_def main_def lift_simps print_on_quiet run_cmd_on_quiet
      clean_up_on_quiet after_init_on_quiet cong: if_cong)

lemma os_of_fixture_host: "os_of fixture_host = fixture_os"
  by (simp add: os_of_def fixture_host_def fixture_os_def fun_eq_iff)

lemma quiet_fixture_host: "quiet fixture_host"
  by (simp add: quiet_def fixture_host_def)

lemmas host_eval_defs = main_on_def after_init_on_def push_essentials_on_def
  push_additional_on_def summary_on_def clean_up_on_def add_dir_on_def run_cmd_on_def
  subprocess_run_on_def shutil_rmtree_on_def os_path_exists_on_def print_on_def
  try_except_Exception_def lift_def os_of_def exit_status_def
  fixture_host_def ascii_console_host_def closed_console_host_def interrupting_host_def
  garbled_host_def unflushable_host_def

lemma text_mode_success:
  "(\<exists>result. text_mode dec l = Inr result \<and> returncode result = 0) \<longleftrightarrow>
   (\<exists>out err out_text err_text.
      l = Exited 0 out err \<and> dec out = Some out_text \<and> dec err = Some err_text)"
  by (cases l) (auto split: option.splits)

lemma spawn_os_of: "fst (spawn (os_of h) w c) = text_mode (decode h) (fst (child h w c))"
  by (simp add: os_of_def split: prod.split)

lemma run_cmd_on_uninterrupted:
  assumes "\<forall>s. console h s = None" and "\<not> interrupted h w c"
  shows "run_cmd_on h c w = lift (run_cmd (os_of h) c) w"
proof -
  have p: "print_on h s = lift (print s)" for s
    using assms(1) by (rule_tac ext) (simp add: print_on_def print_def lift_def)
  have sub: "subprocess_run_on h c w = lift (subprocess_run (os_of h) c) w"
    using assms(2) by (simp add: subprocess_run_on_def)
  have "try_except_Exception (bind (subprocess_run_on h c) f) g w =
      try_except_Exception (bind (lift (subprocess_run (os_of h) c)) f) g w" for f g
    using sub by (simp add: try_except_Exception_def bind_def)
  then have "run_cmd_on h c w =
      try_except_Exception
       (bind (lift (subprocess_run (os_of h) c)) (\<lambda>result.
          seq (if returncode result \<noteq> 0 then print_on h (''Error: '' @ stderr result)
               else ret ())
              (ret (returncode result = 0))))
       (\<lambda>e. seq (print_on h (''Exception: '' @ str e)) (ret False)) w"
    by (simp only: run_cmd_on_def)
  also have "\<dots> = lift (run_cmd (os_of h) c) w"
    by (simp add: run_cmd_def lift_simps p cong: if_cong)
  finally show ?thesis .
qed

lemma run_cmd_on_interrupted:
  assumes "interrupted h w c"
  shows "res (run_cmd_on h c) w = Inl KeyboardInterrupt"
  using assms
  by (simp add: res_def run_cmd_on_def try_except_Exception_def bind_def subprocess_run_on_def)

section \<open>What \<^verbatim>\<open>run_cmd\<close> reports\<close>

text \<open>
  Claim C5 says that \<^verbatim>\<open>run_cmd\<close> returns true exactly when the exit status of the
  process indicates success, and that the caller never receives a raised error. Three runs
  say otherwise. The handler of line 14 names \<^verbatim>\<open>Exception\<close>, so an interrupt of the
  forced push reaches the caller. A command that exits with status 0 and leaves a byte that
  cannot be decoded on its standard error makes \<^verbatim>\<open>subprocess.run\<close> raise, and \<^verbatim>\<open>run_cmd\<close>
  returns False. On a closed console the \<^verbatim>\<open>print\<close> of line 15 raises inside the handler.
\<close>

theorem run_cmd_boolean_counterexample:
  "res (run_cmd_on interrupting_host force_push_cmd) bare_world = Inl KeyboardInterrupt \<and>
   fst (child garbled_host bare_world init_cmd) = Exited 0 [] [CHR 0xFF] \<and>
   res (run_cmd_on garbled_host init_cmd) bare_world = Inr False \<and>
   res (run_cmd_on closed_console_host init_cmd) init_fails_world
     = Inl (Of_Exception (Exception ''Bad file descriptor''))"
  by (simp add: host_eval_defs eval_defs bare_world_def init_fails_world_def)

text \<open>
  Claim C5, amended. Let the console take what is printed. When the user interrupts the
  command, \<^verbatim>\<open>KeyboardInterrupt\<close> reaches the caller. Otherwise \<^verbatim>\<open>run_cmd\<close> returns a
  boolean and raises nothing: True exactly when the command was launched, exited with
  status 0 and its captured output could be decoded, which is when \<^verbatim>\<open>subprocess.run\<close>
  returns with return code 0; False after printing \<^verbatim>\<open>Error:\<close> and the captured standard
  error when the return code is not 0; False after printing \<^verbatim>\<open>Exception:\<close> and the
  exception's text when \<^verbatim>\<open>subprocess.run\<close> raised an instance of \<^verbatim>\<open>Exception\<close>.
\<close>

theorem run_cmd_catches_exception_instances:
  assumes "\<forall>s. console h s = None"
  shows "(interrupted h w cmd \<longrightarrow> res (run_cmd_on h cmd) w = Inl KeyboardInterrupt) \<and>
   (\<not> interrupted h w cmd \<longrightarrow>
      (\<exists>b. res (run_cmd_on h cmd) w = Inr b) \<and>
      (res (run_cmd_on h cmd) w = Inr True \<longleftrightarrow>
         (\<exists>out err out_text err_text. fst (child h w cmd) = Exited 0 out err \<and>
            decode h out = Some out_text \<and> decode h err = Some err_text)) \<and>
      (res (run_cmd_on h cmd) w = Inr True \<longleftrightarrow>
         (\<exists>result. fst (spawn (os_of h) w cmd) = Inr result \<and> returncode result = 0)) \<and>
      (\<forall>result. fst (spawn (os_of h) w cmd) = Inr result \<and> returncode result \<noteq> 0 \<longrightarrow>
         res (run_cmd_on h cmd) w = Inr False \<and>
         trc (run_cmd_on h cmd) w =
           [Run cmd (Inr result), Print (''Error: '' @ stderr result)]) \<and>
      (\<forall>e. fst (spawn (os_of h) w cmd) = Inl e \<longrightarrow>
         res (run_cmd_on h cmd) w = Inr False \<and>
         trc (run_cmd_on h cmd) w = [Run cmd (Inl e), Print (''Exception: '' @ str e)]))"
proof (cases "interrupted h w cmd")
  case True
  then show ?thesis by (simp add: run_cmd_on_interrupted)
next
  case False
  let ?r = "fst (spawn (os_of h) w cmd)"
  have e: "run_cmd_on h cmd w = lift (run_cmd (os_of h) cmd) w"
    by (rule run_cmd_on_uninterrupted [OF assms False])
  have "res (run_cmd_on h cmd) w = res (lift (run_cmd (os_of h) cmd)) w"
    by (simp add: res_def e)
  then have r: "res (run_cmd_on h cmd) w = Inr (succeeded ?r)"
    by (simp add: res_lift res_run_cmd)
  have "trc (run_cmd_on h cmd) w = trc (lift (run_cmd (os_of h) cmd)) w"
    by (simp add: trc_def e)
  then have t: "trc (run_cmd_on h cmd) w = Run cmd ?r # diagnostics ?r"
    by (simp add: trc_lift trc_run_cmd)
  have s: "succeeded ?r \<longleftrightarrow> (\<exists>result. ?r = Inr result \<and> returncode result = 0)"
    by (cases ?r) simp_all
  have "succeeded ?r \<longleftrightarrow>
      (\<exists>out err out_text err_text. fst (child h w cmd) = Exited 0 out err \<and>
         decode h out = Some out_text \<and> decode h err = Some err_text)"
    using s text_mode_success [of "decode h" "fst (child h w cmd)"]
    by (simp add: spawn_os_of)
  moreover have "\<forall>result. ?r = Inr result \<and> returncode result \<noteq> 0 \<longrightarrow>
      res (run_cmd_on h cmd) w = Inr False \<and>
      trc (run_cmd_on h cmd) w = [Run cmd (Inr result), Print (''Error: '' @ stderr result)]"
    by (simp add: r t)
  moreover have "\<forall>e. ?r = Inl e \<longrightarrow>
      res (run_cmd_on h cmd) w = Inr False \<and>
      trc (run_cmd_on h cmd) w = [Run cmd (Inl e), Print (''Exception: '' @ str e)]"
    by (simp add: r t)
  ultimately show ?thesis
    using False s by (simp add: r)
qed

theorem run_cmd_catches_exception_instances_witness:
  "console fixture_host ''Error: fatal'' = None \<and>
   \<not> interrupted fixture_host demo_world (add_cmd ''docs'') \<and>
   fst (spawn (os_of fixture_host) demo_world (add_cmd ''docs''))
     = Inr \<lparr>returncode = 1, stdout = [], stderr = ''fatal''\<rparr> \<and>
   res (run_cmd_on fixture_host (add_cmd ''docs'')) demo_world = Inr False \<and>
   trc (run_cmd_on fixture_host (add_cmd ''docs'')) demo_world
     = [Run (add_cmd ''docs'') (Inr \<lparr>returncode = 1, stdout = [], stderr = ''fatal''\<rparr>),
        Print ''Error: fatal''] \<and>
   fst (spawn (os_of fixture_host) demo_world ''git config core.filemode false'')
     = Inl (Exception ''Cannot allocate memory'') \<and>
   res (run_cmd_on fixture_host ''git config core.filemode false'') demo_world = Inr False \<and>
   trc (run_cmd_on fixture_host ''git config core.filemode false'') demo_world
     = [Run ''git config core.filemode false'' (Inl (Exception ''Cannot allocate memory'')),
        Print ''Exception: Cannot allocate memory''] \<and>
   interrupted interrupting_host bare_world force_push_cmd \<and>
   res (run_cmd_on interrupting_host force_push_cmd) bare_world = Inl KeyboardInterrupt"
proof -
  have c: "\<forall>s. console fixture_host s = None" "\<forall>s. console interrupting_host s = None"
    by (simp_all add: fixture_host_def interrupting_host_def)
  have i: "interrupted interrupting_host bare_world force_push_cmd"
    "\<not> interrupted fixture_host demo_world (add_cmd ''docs'')"
    "\<not> interrupted fixture_host demo_world ''git config core.filemode false''"
    by (simp_all add: fixture_host_def interrupting_host_def)
  show ?thesis
    using run_cmd_catches_exception_instances [OF c(1), of demo_world "add_cmd ''docs''"]
      run_cmd_catches_exception_instances [OF c(1), of demo_world "''git config core.filemode false''"]
      run_cmd_catches_exception_instances [OF c(2), of bare_world force_push_cmd] i c(1)
    by (simp add: os_of_fixture_host fixture_os_def demo_world_def add_cmd_def commit_cmd_def
        remote_cmd_def)
qed

section \<open>The exit status\<close>

text \<open>
  Claim C6 says that every run ends with status 0 and that no exception reaches the
  process boundary. Where standard output encodes ASCII only, the \<^verbatim>\<open>print\<close> of line 19
  raises \<^verbatim>\<open>UnicodeEncodeError\<close> outside any \<^verbatim>\<open>try\<close>: the run ends with status 1 before
  any command is issued. An interrupt of the forced push is not caught by \<^verbatim>\<open>run_cmd\<close>
  and ends the process by the signal. Where standard output cannot be flushed at shutdown
  the status is 120.
\<close>

theorem always_status_zero_counterexample:
  "exit_status ascii_console_host bare_world = Exit 1 \<and>
   trc (main_on ascii_console_host) bare_world = [] \<and>
   exit_status interrupting_host bare_world = Killed_by_SIGINT \<and>
   exit_status unflushable_host bare_world = Exit 120"
  by (simp add: host_eval_defs eval_defs bare_world_def rocket_def)

text \<open>
  Claim C6, amended. On a quiet host, where the console takes every text, nobody
  interrupts a command and standard output can be flushed at shutdown, \<^verbatim>\<open>main\<close> returns
  without raising and the process ends with status 0, however many commands fail, cannot
  be launched or leave output that cannot be decoded. The run then issues the commands and
  prints the texts of the first sections, so failures show in the printed text only.
\<close>

theorem quiet_run_exits_zero:
  assumes "quiet h"
  shows "res (main_on h) w = Inr () \<and> exit_status h w = Exit 0 \<and>
    trc (main_on h) w = trc (main (os_of h)) w"
proof -
  have "res (main_on h) w = Inr ()"
    using assms by (simp add: main_on_quiet res_lift res_main)
  moreover have "\<not> flush_fails h"
    using assms by (simp add: quiet_def)
  ultimately show ?thesis
    using assms by (simp add: exit_status_def main_on_quiet trc_lift)
qed

theorem quiet_run_exits_zero_witness:
  "quiet fixture_host \<and>
   (remote_cmd, False) \<in> set (take 5 (cmd_log (trc (main_on fixture_host) demo_world))) \<and>
   res (main_on fixture_host) demo_world = Inr () \<and>
   exit_status fixture_host demo_world = Exit 0"
proof -
  have "(remote_cmd, False) \<in> set (take 5 (cmd_log (trc (main fixture_os) demo_world)))"
    by (simp only: demo_run_prefix) simp
  then show ?thesis
    using quiet_run_exits_zero [OF quiet_fixture_host, of demo_world] quiet_fixture_host
    by (simp add: os_of_fixture_host)
qed

end
